theory Spec2Isabelle
  imports Main "HOL-Library.Sublist"
begin

section \<open>The data store\<close>

text \<open>
  The tables of \<^verbatim>\<open>database_schema.sql\<close> that the report pipeline reads and writes.
  Identifiers (\<^verbatim>\<open>UUID\<close>) are natural numbers. A nullable column is an \<open>option\<close>
  (\<open>None\<close> is SQL's \<^verbatim>\<open>NULL\<close>). \<^verbatim>\<open>profiles\<close> is kept as a map from the primary key to
  the one column the pipeline uses, \<^verbatim>\<open>tokens_remaining INTEGER DEFAULT 0\<close>, which the schema
  leaves nullable. \<^verbatim>\<open>reports\<close> is an association list in insertion order, keyed by the
  primary key; \<^verbatim>\<open>token_transactions\<close> and \<^verbatim>\<open>error_logs\<close> are lists in insertion order.
  Timestamps are seconds. \<^verbatim>\<open>ai_cost_usd DECIMAL(10, 4)\<close> counts ten-thousandths of a dollar.
\<close>

type_synonym uuid = nat

record report =
  user_id :: uuid
  ticker :: string
  company_name :: string
  newer_filing_date :: string
  older_filing_date :: string
  newer_accession :: string
  older_accession :: string
  extraction_success :: bool
  sections_extracted :: "string list"
  extraction_issues :: "string list"
  ai_summaries :: "(string \<times> string) list"
  tokens_used :: int
  refunded :: bool
  ai_cost_usd :: int
  total_tokens_consumed :: int
  report_url :: "string option"
  created_at :: int
  generation_time_seconds :: int

record token_transaction =
  txn_user_id :: uuid
  txn_report_id :: "uuid option"
  transaction_type :: string
  tokens_amount :: int
  description :: string

record error_log =
  log_user_id :: uuid
  log_ticker :: string
  error_type :: string
  error_message :: string
  status :: string

record db =
  profiles :: "uuid \<rightharpoonup> int option"
  reports :: "(uuid \<times> report) list"
  token_transactions :: "token_transaction list"
  error_logs :: "error_log list"

datatype error =
  Insufficient_tokens "int option"
  | Foreign_key_violation
  | Unique_violation
  | Integer_out_of_range
  | Raised string

section \<open>The ledger\<close>

subsection \<open>\<^verbatim>\<open>deduct_token\<close> (supabase\_functions.sql)\<close>

text \<open>
  \<^verbatim>\<open>SELECT tokens_remaining INTO current_balance ... FOR UPDATE\<close> leaves \<^verbatim>\<open>current_balance\<close>
  \<^verbatim>\<open>NULL\<close> when there is no row or the column is \<^verbatim>\<open>NULL\<close>.
\<close>

definition select_tokens_remaining :: "db \<Rightarrow> uuid \<Rightarrow> int option" where
  "select_tokens_remaining s p_user_id =
     (case profiles s p_user_id of None \<Rightarrow> None | Some b \<Rightarrow> b)"

text \<open>SQL's \<^verbatim>\<open><\<close>: the comparison of \<^verbatim>\<open>NULL\<close> is \<^verbatim>\<open>NULL\<close>, and \<^verbatim>\<open>IF NULL\<close> is not taken.\<close>

definition sql_lt :: "int option \<Rightarrow> int \<Rightarrow> bool option" where
  "sql_lt a b = (case a of None \<Rightarrow> None | Some x \<Rightarrow> Some (x < b))"

text \<open>
  \<^verbatim>\<open>UPDATE profiles SET tokens_remaining = tokens_remaining + d WHERE id = p_user_id\<close>:
  no row, no change; \<^verbatim>\<open>NULL + d\<close> is \<^verbatim>\<open>NULL\<close>.
\<close>

definition update_tokens_remaining :: "uuid \<Rightarrow> int \<Rightarrow> db \<Rightarrow> db" where
  "update_tokens_remaining p_user_id d s =
     (case profiles s p_user_id of
        None \<Rightarrow> s
      | Some b \<Rightarrow> s\<lparr>profiles := (profiles s)(p_user_id \<mapsto> map_option (\<lambda>x. x + d) b)\<rparr>)"

text \<open>
  The function runs as one transaction: the exception leaves the store as it was. The
  decrement happens only from a balance of at least 1, so the 32-bit \<^verbatim>\<open>INTEGER\<close> cannot
  underflow in it.
\<close>

definition deduct_token :: "uuid \<Rightarrow> db \<Rightarrow> error + db" where
  "deduct_token p_user_id s =
     (let current_balance = select_tokens_remaining s p_user_id in
      if sql_lt current_balance 1 = Some True
      then Inl (Insufficient_tokens current_balance)
      else Inr (update_tokens_remaining p_user_id (- 1) s))"

text \<open>The balance of an account as an observer reads it.\<close>

definition balance :: "db \<Rightarrow> uuid \<Rightarrow> int option" where
  "balance s account = select_tokens_remaining s account"

text \<open>The sum of the amounts of an account's ledger transactions.\<close>

definition transactions_sum :: "db \<Rightarrow> uuid \<Rightarrow> int" where
  "transactions_sum s account =
     sum_list (map tokens_amount (filter (\<lambda>t. txn_user_id t = account) (token_transactions s)))"

subsection \<open>Writing transactions and reports\<close>

text \<open>
  \<^verbatim>\<open>INSERT INTO token_transactions\<close>: \<^verbatim>\<open>user_id\<close> references \<^verbatim>\<open>profiles(id)\<close> and is
  \<^verbatim>\<open>NOT NULL\<close>, \<^verbatim>\<open>report_id\<close> references \<^verbatim>\<open>reports(id)\<close>; a row that breaks a reference
  is refused.
\<close>

definition insert_token_transaction :: "token_transaction \<Rightarrow> db \<Rightarrow> error + db" where
  "insert_token_transaction t s =
     (if profiles s (txn_user_id t) = None then Inl Foreign_key_violation
      else if (case txn_report_id t of None \<Rightarrow> False | Some r \<Rightarrow> map_of (reports s) r = None)
      then Inl Foreign_key_violation
      else Inr (s\<lparr>token_transactions := token_transactions s @ [t]\<rparr>))"

text \<open>
  \<^verbatim>\<open>INSERT INTO reports\<close> with the primary key \<open>new_id\<close> that \<^verbatim>\<open>gen_random_uuid()\<close> draws;
  \<^verbatim>\<open>user_id\<close> references \<^verbatim>\<open>profiles(id)\<close>.
\<close>

definition insert_report :: "uuid \<Rightarrow> report \<Rightarrow> db \<Rightarrow> error + db" where
  "insert_report new_id r s =
     (if map_of (reports s) new_id \<noteq> None then Inl Unique_violation
      else if profiles s (user_id r) = None then Inl Foreign_key_violation
      else Inr (s\<lparr>reports := reports s @ [(new_id, r)]\<rparr>))"

text \<open>\<^verbatim>\<open>UPDATE reports SET refunded = true WHERE id = report_id\<close>.\<close>

definition update_refunded :: "uuid \<Rightarrow> db \<Rightarrow> db" where
  "update_refunded rid s =
     s\<lparr>reports := map (\<lambda>(i, r). if i = rid then (i, r\<lparr>refunded := True\<rparr>) else (i, r))
                     (reports s)\<rparr>"

text \<open>\<^verbatim>\<open>DELETE FROM reports WHERE id = report_id\<close>.\<close>

definition delete_report :: "uuid \<Rightarrow> db \<Rightarrow> db" where
  "delete_report rid s = s\<lparr>reports := filter (\<lambda>(i, r). i \<noteq> rid) (reports s)\<rparr>"

subsection \<open>\<^verbatim>\<open>create_token_refund\<close> (database.py)\<close>

text \<open>The values a 32-bit \<^verbatim>\<open>INTEGER\<close> column such as \<^verbatim>\<open>tokens_remaining\<close> can hold.\<close>

definition integer_range :: "int \<Rightarrow> bool" where
  "integer_range x = (- 2147483648 \<le> x \<and> x \<le> 2147483647)"

text \<open>
  Modelled from the spec: the stored procedure \<^verbatim>\<open>increment_tokens\<close> that
  \<^verbatim>\<open>create_token_refund\<close> calls is not among the sources. The spec's \<^verbatim>\<open>credit\<close>
  "increases balance by \<^verbatim>\<open>amount\<close>". The balance it writes is the 32-bit column
  \<^verbatim>\<open>profiles.tokens_remaining\<close>: when the raised balance is outside the column's range the
  store refuses the statement (integer out of range), the call raises and the row stays
  as it was. Without a row, or with a \<^verbatim>\<open>NULL\<close> balance, nothing is raised and nothing
  changes.
\<close>

definition increment_tokens :: "uuid \<Rightarrow> int \<Rightarrow> db \<Rightarrow> error + db" where
  "increment_tokens p_user_id amount s =
     (case select_tokens_remaining s p_user_id of
        None \<Rightarrow> Inr (update_tokens_remaining p_user_id amount s)
      | Some b \<Rightarrow>
          if integer_range (b + amount)
          then Inr (update_tokens_remaining p_user_id amount s)
          else Inl Integer_out_of_range)"

text \<open>
  Three separate calls to the store, in the source's order: mark the report, insert the
  refund transaction, raise the balance. A call that raises ends the method with the
  earlier writes in place; the result is the exception, if any, and the store.
\<close>

definition create_token_refund :: "uuid \<Rightarrow> uuid \<Rightarrow> string \<Rightarrow> db \<Rightarrow> error option \<times> db" where
  "create_token_refund p_user_id rid reason s =
     (let s1 = update_refunded rid s in
      case insert_token_transaction
             \<lparr>txn_user_id = p_user_id, txn_report_id = Some rid,
              transaction_type = ''refund'', tokens_amount = 1,
              description = ''Quality refund: '' @ reason\<rparr> s1 of
        Inl e \<Rightarrow> (Some e, s1)
      | Inr s2 \<Rightarrow>
          (case increment_tokens p_user_id 1 s2 of
             Inl e \<Rightarrow> (Some e, s2)
           | Inr s3 \<Rightarrow> (None, s3)))"

subsection \<open>Usage logging (generate-report)\<close>

text \<open>
  \<^verbatim>\<open>await supabaseAdmin.from('token_transactions').insert({...})\<close>: the handler does not look
  at the result, so a refused row is dropped silently.
\<close>

definition log_usage :: "uuid \<Rightarrow> uuid \<Rightarrow> string \<Rightarrow> db \<Rightarrow> db" where
  "log_usage p_user_id rid tickerUpper s =
     (case insert_token_transaction
             \<lparr>txn_user_id = p_user_id, txn_report_id = Some rid,
              transaction_type = ''usage'', tokens_amount = - 1,
              description = ''Cached report for '' @ tickerUpper\<rparr> s of
        Inl e \<Rightarrow> s
      | Inr s' \<Rightarrow> s')"

subsection \<open>Sequences of ledger operations\<close>

text \<open>
  The three operations the ledger offers, each completing on its own: the debit, the
  logging of a usage transaction, the refund. A debit that raises leaves the store; a
  refund that raises leaves what it wrote before.
\<close>

datatype ledger_op =
  Debit uuid
  | Log_usage uuid uuid string
  | Refund uuid uuid string

fun apply_ledger_op :: "ledger_op \<Rightarrow> db \<Rightarrow> db" where
  "apply_ledger_op (Debit u) s = (case deduct_token u s of Inl e \<Rightarrow> s | Inr s' \<Rightarrow> s')"
| "apply_ledger_op (Log_usage u r t) s = log_usage u r t s"
| "apply_ledger_op (Refund u r reason) s = snd (create_token_refund u r reason s)"

text \<open>The balance invariant at one observation point.\<close>

definition balanced :: "db \<Rightarrow> uuid \<Rightarrow> bool" where
  "balanced s account = (balance s account = Some (transactions_sum s account))"

text \<open>
  The charge of the cache-hit path of generate-report: the debit and, when it succeeds,
  the usage log, taken as one operation.
\<close>

definition charge :: "uuid \<Rightarrow> uuid \<Rightarrow> string \<Rightarrow> db \<Rightarrow> db" where
  "charge u r t s = (case deduct_token u s of Inl e \<Rightarrow> s | Inr s' \<Rightarrow> log_usage u r t s')"

datatype paired_op =
  Charge uuid uuid string
  | Refund_report uuid uuid string

fun apply_paired_op :: "paired_op \<Rightarrow> db \<Rightarrow> db" where
  "apply_paired_op (Charge u r t) s = charge u r t s"
| "apply_paired_op (Refund_report u r reason) s = snd (create_token_refund u r reason s)"

fun charged_reports :: "paired_op list \<Rightarrow> uuid list" where
  "charged_reports [] = []"
| "charged_reports (Charge u r t # ops) = r # charged_reports ops"
| "charged_reports (Refund_report u r reason # ops) = charged_reports ops"

text \<open>The number of refunds to an account in a sequence.\<close>

fun refunds_to :: "uuid \<Rightarrow> paired_op list \<Rightarrow> nat" where
  "refunds_to a [] = 0"
| "refunds_to a (Charge u r t # ops) = refunds_to a ops"
| "refunds_to a (Refund_report u r reason # ops) =
     (if u = a then Suc (refunds_to a ops) else refunds_to a ops)"

text \<open>The refund transactions written for a report.\<close>

definition refunds_of :: "db \<Rightarrow> uuid \<Rightarrow> token_transaction list" where
  "refunds_of s rid =
     filter (\<lambda>t. transaction_type t = ''refund'' \<and> txn_report_id t = Some rid)
       (token_transactions s)"

subsection \<open>A store for the scenarios\<close>

text \<open>
  Account 7 with balance \<open>b\<close>, bought as one purchase, and one report (id 1) for the
  entity TST, created at time \<open>1000\<close>.
\<close>

definition tst_report :: report where
  "tst_report =
     \<lparr>user_id = 7, ticker = ''TST'', company_name = ''Test Co'',
      newer_filing_date = ''2024-02-01'', older_filing_date = ''2023-02-01'',
      newer_accession = ''0000000000-24-000001'', older_accession = ''0000000000-23-000001'',
      extraction_success = True,
      sections_extracted = [''Item 1'', ''Item 1A'', ''Item 7'', ''Item 8''],
      extraction_issues = [], ai_summaries = [(''Item 1'', ''Summary'')],
      tokens_used = 1, refunded = False, ai_cost_usd = 2040, total_tokens_consumed = 61600,
      report_url = None, created_at = 1000, generation_time_seconds = 42\<rparr>"

definition purchase :: "uuid \<Rightarrow> int \<Rightarrow> token_transaction" where
  "purchase u n =
     \<lparr>txn_user_id = u, txn_report_id = None, transaction_type = ''purchase'',
      tokens_amount = n, description = ''Purchased''\<rparr>"

definition tst_db :: "int \<Rightarrow> db" where
  "tst_db b =
     \<lparr>profiles = [7 \<mapsto> Some b], reports = [(1, tst_report)],
      token_transactions = [purchase 7 b], error_logs = []\<rparr>"

section \<open>The Quality Gate (quality\_validator.py)\<close>

text \<open>
  A filing as the fetcher returns it; the \<^verbatim>\<open>sections\<close> dict is an association list in
  insertion order, section name to text. Characters are 8-bit code points.
\<close>

record filing =
  filing_date :: string
  accession :: string
  filing_company_name :: string
  sections :: "(string \<times> string) list"

record ai_results =
  summaries :: "(string \<times> string) list"
  total_cost_usd :: int
  total_tokens :: int

record quality_result =
  is_valid :: bool
  issues :: "string list"

subsection \<open>Python's string operations\<close>

text \<open>\<^verbatim>\<open>str.isspace\<close> on the code points below 256.\<close>

definition isspace :: "char \<Rightarrow> bool" where
  "isspace c = ((of_char c :: nat) \<in> {9, 10, 11, 12, 13, 28, 29, 30, 31, 32, 133, 160})"

text \<open>\<^verbatim>\<open>str.isdigit\<close> on the code points below 256: the decimal digits and the superscripts 1, 2, 3.\<close>

definition isdigit :: "char \<Rightarrow> bool" where
  "isdigit c = ((48 \<le> (of_char c :: nat) \<and> (of_char c :: nat) \<le> 57)
                \<or> (of_char c :: nat) \<in> {178, 179, 185})"

text \<open>
  \<^verbatim>\<open>content.split()\<close>: the maximal runs of characters that are not whitespace. \<open>w\<close> is
  the word being read.
\<close>

fun split_from :: "string \<Rightarrow> string \<Rightarrow> string list" where
  "split_from w [] = (if w = [] then [] else [w])"
| "split_from w (c # cs) =
     (if isspace c then (if w = [] then split_from [] cs else w # split_from [] cs)
      else split_from (w @ [c]) cs)"

definition split :: "string \<Rightarrow> string list" where
  "split content = split_from [] content"

text \<open>\<^verbatim>\<open>str(n)\<close> of a count, as the f-string prints it.\<close>

definition digit_char :: "nat \<Rightarrow> char" where
  "digit_char d = ''0123456789'' ! d"

fun str :: "nat \<Rightarrow> string" where
  "str n = (if n < 10 then [digit_char n] else str (n div 10) @ [digit_char (n mod 10)])"

declare str.simps [simp del]

text \<open>\<^verbatim>\<open>sep.join(xs)\<close>.\<close>

fun join :: "string \<Rightarrow> string list \<Rightarrow> string" where
  "join sep [] = []"
| "join sep [x] = x"
| "join sep (x # y # ys) = x @ sep @ join sep (y # ys)"

subsection \<open>\<^verbatim>\<open>QualityValidator\<close>\<close>

definition min_word_counts :: "string \<rightharpoonup> nat" where
  "min_word_counts =
     map_of [(''Item 1'', 1000), (''Item 1A'', 5000), (''Item 7'', 5000), (''Item 8'', 10000)]"

definition required_sections :: "string list" where
  "required_sections = [''Item 1'', ''Item 1A'', ''Item 7'', ''Item 8'']"

text \<open>
  Each check is a loop that appends to the list \<^verbatim>\<open>issues\<close>; \<open>iss\<close> is that list so far.
  Check 1: all required sections present.
\<close>

fun check_required :: "filing list \<Rightarrow> string list \<Rightarrow> string list" where
  "check_required [] iss = iss"
| "check_required (f # filings) iss =
     (let missing = filter (\<lambda>s. s \<notin> set (map fst (sections f))) required_sections in
      check_required filings
        (if missing \<noteq> [] then iss @ [''Missing sections: '' @ join '', '' missing] else iss))"

text \<open>Check 2: minimum content length.\<close>

definition too_short :: "string \<Rightarrow> nat \<Rightarrow> nat \<Rightarrow> string" where
  "too_short section_name word_count min_words =
     section_name @ '': Content too short ('' @ str word_count @ '' words, expected ''
       @ str min_words @ ''+)''"

fun check_length_sections :: "(string \<times> string) list \<Rightarrow> string list \<Rightarrow> string list" where
  "check_length_sections [] iss = iss"
| "check_length_sections ((section_name, content) # rest) iss =
     check_length_sections rest
       (case min_word_counts section_name of
          None \<Rightarrow> iss
        | Some min_words \<Rightarrow>
            (let word_count = length (split content) in
             if word_count < min_words
             then iss @ [too_short section_name word_count min_words]
             else iss))"

fun check_length :: "filing list \<Rightarrow> string list \<Rightarrow> string list" where
  "check_length [] iss = iss"
| "check_length (f # filings) iss =
     check_length filings (check_length_sections (sections f) iss)"

text \<open>
  Check 3: content quality. \<^verbatim>\<open>number_words / len(words) > 0.8\<close> is a comparison of
  doubles; for fewer than \<open>10\<^sup>1\<^sup>5\<close> words it holds exactly when
  \<open>5 * number_words > 4 * len(words)\<close>, which is what the model tests.
\<close>

fun check_numbers_sections :: "(string \<times> string) list \<Rightarrow> string list \<Rightarrow> string list" where
  "check_numbers_sections [] iss = iss"
| "check_numbers_sections ((section_name, content) # rest) iss =
     check_numbers_sections rest
       (let words = split content in
        if length words > 0 then
          (let number_words = length (filter (\<lambda>w. \<exists>c \<in> set w. isdigit c) words) in
           if 5 * number_words > 4 * length words
           then iss @ [section_name
                  @ '': Appears to be mostly tables/numbers (may indicate extraction error)'']
           else iss)
        else iss)"

fun check_numbers :: "filing list \<Rightarrow> string list \<Rightarrow> string list" where
  "check_numbers [] iss = iss"
| "check_numbers (f # filings) iss =
     check_numbers filings (check_numbers_sections (sections f) iss)"

text \<open>Check 4: AI summaries generated (an empty dict is falsy).\<close>

definition check_summaries :: "ai_results \<Rightarrow> string list \<Rightarrow> string list" where
  "check_summaries a iss =
     (if summaries a = [] then iss @ [''No AI summaries generated''] else iss)"

definition validate_extraction :: "filing list \<Rightarrow> 'd \<Rightarrow> ai_results \<Rightarrow> quality_result" where
  "validate_extraction filings diff_results a =
     (let iss = check_summaries a
                  (check_numbers filings (check_length filings (check_required filings [])))
      in \<lparr>is_valid = (length iss = 0), issues = iss\<rparr>)"

text \<open>The last two characters of an issue; a too-short issue ends in \<^verbatim>\<open>+)\<close>.\<close>

definition ends_plus_paren :: "string \<Rightarrow> bool" where
  "ends_plus_paren msg = (length msg \<ge> 2 \<and> drop (length msg - 2) msg = ''+)'')"

text \<open>A text of \<open>n\<close> words for the scenarios.\<close>

definition words_text :: "nat \<Rightarrow> string" where
  "words_text n = concat (replicate n ''word '')"

section \<open>Company search (search-companies)\<close>

text \<open>
  A row of \<^verbatim>\<open>companies\<close> as the handler selects it: \<^verbatim>\<open>ticker, company_name, cik\<close> (the
  fields carry the prefix \<open>c_\<close>, the handler's name for a row).
\<close>

record company =
  c_ticker :: string
  c_company_name :: string
  c_cik :: string

subsection \<open>JavaScript's string operations\<close>

text \<open>
  \<^verbatim>\<open>toLowerCase\<close> and \<^verbatim>\<open>toUpperCase\<close> on ASCII letters; every other code point is left as
  it is.
\<close>

definition toLowerCase :: "string \<Rightarrow> string" where
  "toLowerCase s =
     map (\<lambda>c. case map_of (zip ''ABCDEFGHIJKLMNOPQRSTUVWXYZ'' ''abcdefghijklmnopqrstuvwxyz'') c of
                 None \<Rightarrow> c | Some l \<Rightarrow> l) s"

definition toUpperCase :: "string \<Rightarrow> string" where
  "toUpperCase s =
     map (\<lambda>c. case map_of (zip ''abcdefghijklmnopqrstuvwxyz'' ''ABCDEFGHIJKLMNOPQRSTUVWXYZ'') c of
                 None \<Rightarrow> c | Some l \<Rightarrow> l) s"

text \<open>
  \<^verbatim>\<open>trim\<close> removes white space and line terminators at both ends; below 256 these are
  tab, line feed, vertical tab, form feed, carriage return, space and no-break space.
\<close>

definition js_whitespace :: "char \<Rightarrow> bool" where
  "js_whitespace c = ((of_char c :: nat) \<in> {9, 10, 11, 12, 13, 32, 160})"

definition trim :: "string \<Rightarrow> string" where
  "trim s = rev (dropWhile js_whitespace (rev (dropWhile js_whitespace s)))"

definition startsWith :: "string \<Rightarrow> string \<Rightarrow> bool" where
  "startsWith s t = prefix t s"

definition js_includes :: "string \<Rightarrow> string \<Rightarrow> bool" where
  "js_includes s t = sublist t s"

text \<open>
  \<^verbatim>\<open>name.match(new RegExp('\\b' + escaped))\<close>, where \<^verbatim>\<open>escaped\<close> is the search term with
  every regular-expression metacharacter escaped: the term occurs in the name at a word
  boundary. \<open>prev\<close> tells whether the character before the position is a word character
  (\<^verbatim>\<open>[A-Za-z0-9_]\<close>); there is none before the first position.
\<close>

definition is_word_char :: "char \<Rightarrow> bool" where
  "is_word_char c =
     (let n = (of_char c :: nat) in
      (48 \<le> n \<and> n \<le> 57) \<or> (65 \<le> n \<and> n \<le> 90) \<or> n = 95 \<or> (97 \<le> n \<and> n \<le> 122))"

fun match_at_word_boundary :: "bool \<Rightarrow> string \<Rightarrow> string \<Rightarrow> bool" where
  "match_at_word_boundary prev t [] = (prev \<and> t = [])"
| "match_at_word_boundary prev t (c # cs) =
     ((prev \<noteq> is_word_char c \<and> prefix t (c # cs))
      \<or> match_at_word_boundary (is_word_char c) t cs)"

subsection \<open>Scoring, sorting, slicing\<close>

definition score :: "string \<Rightarrow> company \<Rightarrow> int" where
  "score searchTerm c =
     (let ticker_lc = toLowerCase (c_ticker c); name_lc = toLowerCase (c_company_name c) in
      if ticker_lc = searchTerm then 10000
      else if startsWith ticker_lc searchTerm then 5000
      else if js_includes ticker_lc searchTerm then 1000
      else if name_lc = searchTerm then 9000
      else if startsWith name_lc searchTerm then 4000
      else if match_at_word_boundary False searchTerm name_lc then 3000
      else if js_includes name_lc searchTerm then 100
      else 0)"

text \<open>
  \<^verbatim>\<open>scored.sort((a, b) => b.score - a.score)\<close> is a stable sort by falling score;
  \<^verbatim>\<open>slice(0, 20)\<close> takes the first 20; the last \<^verbatim>\<open>map\<close> drops the score.
\<close>

definition rank :: "string \<Rightarrow> company list \<Rightarrow> company list" where
  "rank searchTerm data =
     (let scored = map (\<lambda>c. (c, score searchTerm c)) data;
          sorted_scored = sort_key (\<lambda>(c, s). - s) scored
      in map fst (take 20 sorted_scored))"

text \<open>
  The handler. \<open>query\<close> is the \<^verbatim>\<open>query\<close> field of the request body, if it has one. The
  rows come from the store: \<open>reply\<close> is the store's answer to the \<^verbatim>\<open>ilike\<close> query (at most
  50 rows), an error or the rows \<^verbatim>\<open>data\<close>, which may be \<^verbatim>\<open>null\<close>.
\<close>

datatype store_reply = Store_error | Store_data "company list option"

record search_response =
  search_status :: nat
  search_error :: "string option"
  results :: "company list"

definition search_companies :: "string option \<Rightarrow> store_reply \<Rightarrow> search_response" where
  "search_companies query reply =
     (case query of
        None \<Rightarrow> \<lparr>search_status = 200, search_error = None, results = []\<rparr>
      | Some q \<Rightarrow>
          if length q < 1 then \<lparr>search_status = 200, search_error = None, results = []\<rparr>
          else
            (let searchTerm = trim (toLowerCase q) in
             case reply of
               Store_error \<Rightarrow>
                 \<lparr>search_status = 500, search_error = Some ''Search failed'', results = []\<rparr>
             | Store_data data \<Rightarrow>
                 \<lparr>search_status = 200, search_error = None,
                  results = rank searchTerm (case data of None \<Rightarrow> [] | Some rows \<Rightarrow> rows)\<rparr>))"

section \<open>The request handler (generate-report)\<close>

text \<open>
  The variant of the handler that clones a cached report for the requesting account. What
  the handler returns: an error with its HTTP status and error code, the cached answer
  (status 200) with the \<^verbatim>\<open>refunded\<close> flag and the id of the new report, or the answer
  that the job was queued (status 202) with the job id.
\<close>

datatype response =
  Error_response nat string
  | Cached_response bool uuid
  | Accepted_response uuid

text \<open>What the worker answers to the dispatch: \<^verbatim>\<open>fetch\<close> throws, or a response that is ok or not.\<close>

datatype worker_reply = Worker_ok | Worker_not_ok string | Worker_unreachable string

text \<open>
  What the handler takes from its surroundings: the time, the primary key drawn for the
  clone, the job id drawn by \<^verbatim>\<open>crypto.randomUUID()\<close>, \<^verbatim>\<open>PYTHON_WORKER_URL\<close> and the worker's
  answer.
\<close>

record request_env =
  now :: int
  clone_id :: uuid
  jobId :: uuid
  workerUrl :: "string option"
  worker :: worker_reply

text \<open>
  Step 1's query: the reports of the ticker created at or after the cut-off, newest first,
  \<^verbatim>\<open>limit(1)\<close>. (Among reports of the same \<^verbatim>\<open>created_at\<close> the store may return any; the
  model returns the one inserted first.)
\<close>

definition existingReports :: "db \<Rightarrow> string \<Rightarrow> int \<Rightarrow> (uuid \<times> report) list" where
  "existingReports s tickerUpper thirtyDaysAgo =
     take 1 (sort_key (\<lambda>(i, r). - created_at r)
       (filter (\<lambda>(i, r). ticker r = tickerUpper \<and> thirtyDaysAgo \<le> created_at r) (reports s)))"

text \<open>The row the handler inserts for the requesting account.\<close>

definition cached_clone :: "uuid \<Rightarrow> int \<Rightarrow> report \<Rightarrow> report" where
  "cached_clone uid created fullReport =
     \<lparr>user_id = uid,
      ticker = ticker fullReport,
      company_name = company_name fullReport,
      newer_filing_date = newer_filing_date fullReport,
      older_filing_date = older_filing_date fullReport,
      newer_accession = newer_accession fullReport,
      older_accession = older_accession fullReport,
      extraction_success = extraction_success fullReport,
      sections_extracted = sections_extracted fullReport,
      extraction_issues = extraction_issues fullReport,
      ai_summaries = ai_summaries fullReport,
      tokens_used = 1,
      refunded = refunded fullReport,
      ai_cost_usd = 0,
      total_tokens_consumed = 0,
      report_url = report_url fullReport,
      created_at = created,
      generation_time_seconds = 0\<rparr>"

text \<open>
  Step 2, no cached report: the pre-flight check of the balance and the dispatch to the
  worker. In JavaScript \<^verbatim>\<open>null < 1\<close> is true. The store is not written.
\<close>

definition dispatch_new_report :: "uuid \<Rightarrow> request_env \<Rightarrow> db \<Rightarrow> response" where
  "dispatch_new_report uid e s =
     (case profiles s uid of
        None \<Rightarrow> Error_response 404 ''profile_not_found''
      | Some tokens_remaining \<Rightarrow>
          if (case tokens_remaining of None \<Rightarrow> True | Some n \<Rightarrow> n < 1)
          then Error_response 402 ''insufficient_tokens''
          else
            (case workerUrl e of
               None \<Rightarrow> Error_response 500 ''internal_error''
             | Some url \<Rightarrow>
                 (case worker e of
                    Worker_unreachable msg \<Rightarrow> Error_response 500 ''internal_error''
                  | Worker_not_ok errorText \<Rightarrow> Error_response 500 ''worker_error''
                  | Worker_ok \<Rightarrow> Accepted_response (jobId e))))"

text \<open>
  The handler. \<open>tk\<close> and \<open>uid\<close> are the \<^verbatim>\<open>ticker\<close> and \<^verbatim>\<open>user_id\<close> of the request body,
  if it has them. Thirty days are 2592000 seconds.
\<close>

definition generate_report ::
  "string option \<Rightarrow> uuid option \<Rightarrow> request_env \<Rightarrow> db \<Rightarrow> response \<times> db" where
  "generate_report tk uid_opt e s =
     (case tk of
        None \<Rightarrow> (Error_response 400 ''missing_ticker'', s)
      | Some t \<Rightarrow>
          if t = [] then (Error_response 400 ''missing_ticker'', s)
          else
            (case uid_opt of
               None \<Rightarrow> (Error_response 400 ''missing_user_id'', s)
             | Some uid \<Rightarrow>
                 (let tickerUpper = toUpperCase t;
                      thirtyDaysAgo = now e - 2592000
                  in case existingReports s tickerUpper thirtyDaysAgo of
                       [] \<Rightarrow> (dispatch_new_report uid e s, s)
                     | (cached_id, cachedReport) # _ \<Rightarrow>
                         (case map_of (reports s) cached_id of
                            None \<Rightarrow> (dispatch_new_report uid e s, s)
                          | Some fullReport \<Rightarrow>
                              (case insert_report (clone_id e)
                                      (cached_clone uid (now e) fullReport) s of
                                 Inl insertError \<Rightarrow> (dispatch_new_report uid e s, s)
                               | Inr s1 \<Rightarrow>
                                   if \<not> refunded cachedReport then
                                     (case deduct_token uid s1 of
                                        Inl tokenError \<Rightarrow>
                                          (Error_response 402 ''insufficient_tokens'',
                                           delete_report (clone_id e) s1)
                                      | Inr s2 \<Rightarrow>
                                          (Cached_response (refunded cachedReport) (clone_id e),
                                           log_usage uid (clone_id e) tickerUpper s2))
                                   else
                                     (Cached_response (refunded cachedReport) (clone_id e),
                                      s1))))))"

section \<open>The worker (worker.py, database.py)\<close>

record job =
  job_status :: string
  progress :: nat
  job_ticker :: string
  job_error :: "string option"

record callback =
  cb_job_id :: uuid
  cb_status :: string
  cb_report_id :: "uuid option"
  cb_error :: "string option"

text \<open>
  What the job takes from its surroundings: the results of the three collaborators (a
  left value is the message of the exception one raised), the time, the primary key drawn
  for the report, and whether the completion callback is delivered or raises.
\<close>

record 'd worker_env =
  fetched :: "string + filing list"
  diffed :: "string + 'd"
  analysed :: "string + ai_results"
  worker_now :: int
  report_uuid :: uuid
  callback_delivered :: bool

text \<open>The state the job works on, and what is left when the thread ends.\<close>

record world =
  store :: db
  jobs :: "uuid \<rightharpoonup> job"
  posted :: "callback list"
  uncaught :: "error option"

text \<open>\<^verbatim>\<open>str(e)\<close> of an exception.\<close>

fun error_text :: "error \<Rightarrow> string" where
  "error_text (Raised msg) = msg"
| "error_text (Insufficient_tokens b) = ''Insufficient tokens''"
| "error_text Foreign_key_violation = ''violates foreign key constraint''"
| "error_text Unique_violation = ''duplicate key value violates unique constraint''"
| "error_text Integer_out_of_range = ''integer out of range''"

text \<open>
  \<^verbatim>\<open>create_report\<close>: the row written for a finished run. \<^verbatim>\<open>generation_time_seconds\<close> is 0:
  the job never stores a \<^verbatim>\<open>start_time\<close>, so the difference taken is between two readings
  of the clock in the same expression.
\<close>

definition create_report ::
  "uuid \<Rightarrow> string \<Rightarrow> filing \<Rightarrow> filing \<Rightarrow> quality_result \<Rightarrow> ai_results \<Rightarrow> int \<Rightarrow> uuid \<Rightarrow> db
   \<Rightarrow> error + db" where
  "create_report uid tkr newer older quality a created new_id s =
     insert_report new_id
       \<lparr>user_id = uid,
        ticker = tkr,
        company_name = filing_company_name newer,
        newer_filing_date = filing_date newer,
        older_filing_date = filing_date older,
        newer_accession = accession newer,
        older_accession = accession older,
        extraction_success = is_valid quality,
        sections_extracted = map fst (sections newer),
        extraction_issues = issues quality,
        ai_summaries = summaries a,
        tokens_used = 1,
        refunded = False,
        ai_cost_usd = total_cost_usd a,
        total_tokens_consumed = total_tokens a,
        report_url = None,
        created_at = created,
        generation_time_seconds = 0\<rparr> s"

text \<open>\<^verbatim>\<open>create_error_log\<close>: \<^verbatim>\<open>error_logs.user_id\<close> references \<^verbatim>\<open>profiles(id)\<close>.\<close>

definition create_error_log :: "uuid \<Rightarrow> string \<Rightarrow> string \<Rightarrow> string \<Rightarrow> db \<Rightarrow> error + db" where
  "create_error_log uid tkr etype msg s =
     (if profiles s uid = None then Inl Foreign_key_violation
      else Inr (s\<lparr>error_logs := error_logs s @
             [\<lparr>log_user_id = uid, log_ticker = tkr, error_type = etype, error_message = msg,
               status = ''open''\<rparr>]\<rparr>))"

definition set_progress :: "uuid \<Rightarrow> nat \<Rightarrow> world \<Rightarrow> world" where
  "set_progress job_id p w =
     w\<lparr>jobs := (case jobs w job_id of None \<Rightarrow> jobs w
                 | Some j \<Rightarrow> (jobs w)(job_id \<mapsto> j\<lparr>progress := p\<rparr>))\<rparr>"

text \<open>
  The \<^verbatim>\<open>except\<close> branch of \<^verbatim>\<open>process_job\<close>: mark the job failed, write the error log, try
  the callback (its failure is swallowed). An exception of \<^verbatim>\<open>create_error_log\<close> leaves
  the thread.
\<close>

definition job_failed :: "uuid \<Rightarrow> uuid \<Rightarrow> string \<Rightarrow> string \<Rightarrow> world \<Rightarrow> world" where
  "job_failed job_id uid tkr msg w =
     (let w1 = w\<lparr>jobs := (case jobs w job_id of None \<Rightarrow> jobs w
                    | Some j \<Rightarrow> (jobs w)(job_id \<mapsto> j\<lparr>job_status := ''failed'',
                                                       job_error := Some msg\<rparr>))\<rparr>
      in case create_error_log uid tkr ''extraction_failed'' msg (store w1) of
           Inl e \<Rightarrow> w1\<lparr>uncaught := Some e\<rparr>
         | Inr s' \<Rightarrow>
             w1\<lparr>store := s',
                posted := posted w1 @
                  [\<lparr>cb_job_id = job_id, cb_status = ''failed'', cb_report_id = None,
                    cb_error = Some msg\<rparr>]\<rparr>)"

text \<open>
  Steps 5 to 7 of \<^verbatim>\<open>process_job\<close>: write the report, refund when the quality check
  failed, mark the job completed, call back. No step debits the account.
\<close>

definition finish_job ::
  "uuid \<Rightarrow> uuid \<Rightarrow> string \<Rightarrow> filing \<Rightarrow> filing \<Rightarrow> quality_result \<Rightarrow> ai_results
   \<Rightarrow> 'd worker_env \<Rightarrow> world \<Rightarrow> world" where
  "finish_job job_id uid tkr newer older quality a e w =
     (case create_report uid tkr newer older quality a (worker_now e) (report_uuid e) (store w) of
        Inl err \<Rightarrow> job_failed job_id uid tkr (error_text err) w
      | Inr s1 \<Rightarrow>
          (let (refund_error, s2) =
                 (if \<not> is_valid quality
                  then create_token_refund uid (report_uuid e)
                         (''Quality issues: '' @ join '', '' (issues quality)) s1
                  else (None, s1));
               w2 = w\<lparr>store := s2\<rparr>
           in case refund_error of
                Some err \<Rightarrow> job_failed job_id uid tkr (error_text err) w2
              | None \<Rightarrow>
                  (let w3 = w2\<lparr>jobs := (case jobs w2 job_id of None \<Rightarrow> jobs w2
                                 | Some j \<Rightarrow> (jobs w2)(job_id \<mapsto>
                                     j\<lparr>progress := 100, job_status := ''completed''\<rparr>))\<rparr>;
                       w4 = w3\<lparr>posted := posted w3 @
                              [\<lparr>cb_job_id = job_id, cb_status = ''completed'',
                                cb_report_id = Some (report_uuid e), cb_error = None\<rparr>]\<rparr>
                   in if callback_delivered e then w4
                      else job_failed job_id uid tkr ''callback failed'' w4)))"

text \<open>\<^verbatim>\<open>process_job\<close>, steps 1 to 4, then the above.\<close>

definition process_job :: "uuid \<Rightarrow> uuid \<Rightarrow> string \<Rightarrow> 'd worker_env \<Rightarrow> world \<Rightarrow> world" where
  "process_job job_id uid tkr e w =
     (let w0 = w\<lparr>jobs := (jobs w)(job_id \<mapsto>
                 \<lparr>job_status = ''processing'', progress = 10, job_ticker = tkr,
                  job_error = None\<rparr>)\<rparr>
      in case fetched e of
           Inl msg \<Rightarrow> job_failed job_id uid tkr msg w0
         | Inr filings \<Rightarrow>
             (case filings of
                newer # older # _ \<Rightarrow>
                  (case diffed e of
                     Inl msg \<Rightarrow> job_failed job_id uid tkr msg (set_progress job_id 30 w0)
                   | Inr diff_results \<Rightarrow>
                       (case analysed e of
                          Inl msg \<Rightarrow> job_failed job_id uid tkr msg (set_progress job_id 50 w0)
                        | Inr a \<Rightarrow>
                            finish_job job_id uid tkr newer older
                              (validate_extraction filings diff_results a) a e
                              (set_progress job_id 90 w0)))
              | _ \<Rightarrow>
                  job_failed job_id uid tkr
                    (''Need 2 filings, found '' @ str (length filings)) w0))"

subsection \<open>Filings for the scenarios\<close>

text \<open>
  A filing with all four required sections, each of exactly its minimum length, and the
  same filing without its Item 7.
\<close>

definition full_filing :: "string \<Rightarrow> string \<Rightarrow> filing" where
  "full_filing date acc =
     \<lparr>filing_date = date, accession = acc, filing_company_name = ''Test Co'',
      sections = [(''Item 1'', words_text 1000), (''Item 1A'', words_text 5000),
                  (''Item 7'', words_text 5000), (''Item 8'', words_text 10000)]\<rparr>"

definition filing_without_item7 :: "string \<Rightarrow> string \<Rightarrow> filing" where
  "filing_without_item7 date acc =
     \<lparr>filing_date = date, accession = acc, filing_company_name = ''Test Co'',
      sections = [(''Item 1'', words_text 1000), (''Item 1A'', words_text 5000),
                  (''Item 8'', words_text 10000)]\<rparr>"

definition tst_ai_results :: ai_results where
  "tst_ai_results =
     \<lparr>summaries = [(''Item 1'', ''Summary'')], total_cost_usd = 2040, total_tokens = 61600\<rparr>"

text \<open>Account 7 with balance \<open>b\<close>, bought as one purchase, and no report yet.\<close>

definition fresh_db :: "int \<Rightarrow> db" where
  "fresh_db b =
     \<lparr>profiles = [7 \<mapsto> Some b], reports = [], token_transactions = [purchase 7 b],
      error_logs = []\<rparr>"

definition tst_worker_env :: "filing list \<Rightarrow> unit worker_env" where
  "tst_worker_env filings =
     \<lparr>fetched = Inr filings, diffed = Inr (), analysed = Inr tst_ai_results,
      worker_now = 2000, report_uuid = 1, callback_delivered = True\<rparr>"

definition tst_request_env :: request_env where
  "tst_request_env =
     \<lparr>now = 2000, clone_id = 2, jobId = 100, workerUrl = Some ''https://worker'',
      worker = Worker_ok\<rparr>"

section \<open>Two concurrent calls of \<^verbatim>\<open>deduct_token\<close>\<close>

text \<open>
  Each call of the function is one transaction of three statements, and the scheduler may
  run a statement of either call next. The row lock is what the source asks for:
  \<^verbatim>\<open>SELECT ... FOR UPDATE\<close> waits until no other transaction holds the lock on the row,
  takes it and reads the row as it then is (the store's default isolation, read
  committed); the lock is held until the transaction ends, by commit after the
  \<^verbatim>\<open>UPDATE\<close> or by the abort that \<^verbatim>\<open>RAISE EXCEPTION\<close> causes. A call is at one of these
  points: not started, holding the lock with \<^verbatim>\<open>current_balance\<close> read, updated and not yet
  committed, committed, or aborted with the exception.
\<close>

datatype call = Idle | Locked int | Updated | Committed | Aborted int

text \<open>
  The account's \<^verbatim>\<open>tokens_remaining\<close>, the call that holds the row lock, and the two calls
  (\<open>False\<close> names the first, \<open>True\<close> the second).
\<close>

record shared =
  row :: int
  holder :: "bool option"
  first_call :: call
  second_call :: call

definition call_of :: "bool \<Rightarrow> shared \<Rightarrow> call" where
  "call_of p s = (if p then second_call s else first_call s)"

definition set_call :: "bool \<Rightarrow> call \<Rightarrow> shared \<Rightarrow> shared" where
  "set_call p c s = (if p then s\<lparr>second_call := c\<rparr> else s\<lparr>first_call := c\<rparr>)"

text \<open>
  One statement of call \<open>p\<close>. A call that waits for the lock, or has ended, leaves the
  state as it is.
\<close>

definition step :: "bool \<Rightarrow> shared \<Rightarrow> shared" where
  "step p s =
     (case call_of p s of
        Idle \<Rightarrow>
          (if holder s = None then set_call p (Locked (row s)) (s\<lparr>holder := Some p\<rparr>) else s)
      | Locked current_balance \<Rightarrow>
          (if current_balance < 1
           then set_call p (Aborted current_balance) (s\<lparr>holder := None\<rparr>)
           else set_call p Updated (s\<lparr>row := row s - 1\<rparr>))
      | Updated \<Rightarrow> set_call p Committed (s\<lparr>holder := None\<rparr>)
      | Committed \<Rightarrow> s
      | Aborted b \<Rightarrow> s)"

text \<open>A schedule is the list of the calls whose statement runs next.\<close>

definition run :: "bool list \<Rightarrow> shared \<Rightarrow> shared" where
  "run schedule s = fold step schedule s"

definition two_debits :: "int \<Rightarrow> shared" where
  "two_debits b = \<lparr>row = b, holder = None, first_call = Idle, second_call = Idle\<rparr>"

definition ended :: "call \<Rightarrow> bool" where
  "ended c = (case c of Committed \<Rightarrow> True | Aborted b \<Rightarrow> True | _ \<Rightarrow> False)"

text \<open>
  A schedule that lets every call started in a reachable state end: three statements of
  the first call, three of the second, three of the first.
\<close>

definition fair_rest :: "bool list" where
  "fair_rest = [False, False, False, True, True, True, False, False, False]"

text \<open>The states that two calls on a balance of 1 can reach.\<close>

definition reachable_states :: "shared list" where
  "reachable_states =
     [\<lparr>row = 1, holder = None, first_call = Idle, second_call = Idle\<rparr>,
      \<lparr>row = 1, holder = Some False, first_call = Locked 1, second_call = Idle\<rparr>,
      \<lparr>row = 0, holder = Some False, first_call = Updated, second_call = Idle\<rparr>,
      \<lparr>row = 0, holder = None, first_call = Committed, second_call = Idle\<rparr>,
      \<lparr>row = 0, holder = Some True, first_call = Committed, second_call = Locked 0\<rparr>,
      \<lparr>row = 0, holder = None, first_call = Committed, second_call = Aborted 0\<rparr>,
      \<lparr>row = 1, holder = Some True, first_call = Idle, second_call = Locked 1\<rparr>,
      \<lparr>row = 0, holder = Some True, first_call = Idle, second_call = Updated\<rparr>,
      \<lparr>row = 0, holder = None, first_call = Idle, second_call = Committed\<rparr>,
      \<lparr>row = 0, holder = Some False, first_call = Locked 0, second_call = Committed\<rparr>,
      \<lparr>row = 0, holder = None, first_call = Aborted 0, second_call = Committed\<rparr>]"

section \<open>Properties\<close>

subsection \<open>Debit\<close>

lemma deduct_token_fails:
  "balance s u = Some b \<Longrightarrow> b < 1 \<Longrightarrow> deduct_token u s = Inl (Insufficient_tokens (Some b))"
  by (simp add: deduct_token_def balance_def sql_lt_def)

lemma deduct_token_succeeds:
  "balance s u = Some b \<Longrightarrow> \<not> b < 1 \<Longrightarrow>
   deduct_token u s = Inr (update_tokens_remaining u (- 1) s)"
  by (simp add: deduct_token_def balance_def sql_lt_def)

lemma balance_update_tokens_remaining:
  "balance s u = Some b \<Longrightarrow> balance (update_tokens_remaining u d s) u = Some (b + d)"
  by (auto simp: balance_def select_tokens_remaining_def update_tokens_remaining_def
      split: option.splits)

lemma balance_update_tokens_remaining_other:
  "v \<noteq> u \<Longrightarrow> balance (update_tokens_remaining u d s) v = balance s v"
  by (auto simp: balance_def select_tokens_remaining_def update_tokens_remaining_def
      split: option.splits)

text \<open>
  C3, as stated, for every starting balance: fails at a negative starting balance, which
  the failed debit leaves as it is. The column is a plain \<^verbatim>\<open>INTEGER\<close> with no
  \<^verbatim>\<open>CHECK\<close> constraint.
\<close>

theorem deduct_token_negative_balance_counterexample:
  "(case deduct_token 7 \<lparr>profiles = [7 \<mapsto> Some (- 1)], reports = [], token_transactions = [],
            error_logs = []\<rparr> of
      Inl e \<Rightarrow> balance \<lparr>profiles = [7 \<mapsto> Some (- 1)], reports = [], token_transactions = [],
            error_logs = []\<rparr> 7
    | Inr s' \<Rightarrow> balance s' 7) = Some (- 1)"
  by (simp add: deduct_token_def select_tokens_remaining_def sql_lt_def balance_def)

text \<open>
  C3, amended: for an account whose balance is an integer \<open>b\<close>, \<^verbatim>\<open>deduct_token\<close> raises
  the insufficient-tokens exception exactly when \<open>b < 1\<close>, and then the store is as it
  was (the exception ends the function's transaction); otherwise it succeeds, the balance
  becomes \<open>b - 1\<close> and no other account, report or transaction changes. So from a
  starting balance that is not negative the resulting balance is not negative.
\<close>

theorem deduct_token_checks_and_decrements:
  assumes "balance s u = Some b"
  shows "(b < 1 \<longrightarrow> deduct_token u s = Inl (Insufficient_tokens (Some b))
             \<and> apply_ledger_op (Debit u) s = s)
       \<and> (\<not> b < 1 \<longrightarrow> (\<exists>s'. deduct_token u s = Inr s' \<and> balance s' u = Some (b - 1)
             \<and> (\<forall>v. v \<noteq> u \<longrightarrow> balance s' v = balance s v)
             \<and> reports s' = reports s \<and> token_transactions s' = token_transactions s))
       \<and> (0 \<le> b \<longrightarrow> (case deduct_token u s of
             Inl e \<Rightarrow> b = 0
           | Inr s' \<Rightarrow> (\<exists>b'. balance s' u = Some b' \<and> 0 \<le> b')))"
proof (cases "b < 1")
  case True
  with assms show ?thesis
    by (auto simp: deduct_token_fails)
next
  case False
  have upd: "reports (update_tokens_remaining u (- 1) s) = reports s"
    "token_transactions (update_tokens_remaining u (- 1) s) = token_transactions s"
    by (simp_all add: update_tokens_remaining_def split: option.splits)
  from False assms show ?thesis
    using balance_update_tokens_remaining [OF assms, of "- 1"]
    by (simp add: deduct_token_succeeds balance_update_tokens_remaining_other upd)
qed

theorem deduct_token_checks_and_decrements_witness:
  "deduct_token 7 \<lparr>profiles = [7 \<mapsto> Some 1], reports = [], token_transactions = [],
       error_logs = []\<rparr>
     = Inr \<lparr>profiles = [7 \<mapsto> Some 0], reports = [], token_transactions = [],
       error_logs = []\<rparr>
   \<and> deduct_token 7 \<lparr>profiles = [7 \<mapsto> Some 0], reports = [], token_transactions = [],
       error_logs = []\<rparr> = Inl (Insufficient_tokens (Some 0))"
proof -
  let ?s1 = "\<lparr>profiles = [7 \<mapsto> Some (1::int)], reports = [], token_transactions = [],
       error_logs = []\<rparr>"
  let ?s0 = "\<lparr>profiles = [7 \<mapsto> Some (0::int)], reports = [], token_transactions = [],
       error_logs = []\<rparr>"
  have b1: "balance ?s1 7 = Some 1" and b0: "balance ?s0 7 = Some 0"
    by (simp_all add: balance_def select_tokens_remaining_def)
  have "deduct_token 7 ?s0 = Inl (Insufficient_tokens (Some 0))"
    using deduct_token_checks_and_decrements [OF b0] by simp
  moreover have "deduct_token 7 ?s1 = Inr ?s0"
    using deduct_token_checks_and_decrements [OF b1]
    by (simp add: deduct_token_def select_tokens_remaining_def sql_lt_def
        update_tokens_remaining_def)
  ultimately show ?thesis by simp
qed

subsection \<open>The balance invariant\<close>

lemma balance_update_refunded [simp]: "balance (update_refunded r s) a = balance s a"
  by (simp add: balance_def select_tokens_remaining_def update_refunded_def)

lemma transactions_sum_update_refunded [simp]:
  "transactions_sum (update_refunded r s) a = transactions_sum s a"
  by (simp add: transactions_sum_def update_refunded_def)

lemma transactions_sum_update_tokens_remaining [simp]:
  "transactions_sum (update_tokens_remaining u d s) a = transactions_sum s a"
  by (simp add: transactions_sum_def update_tokens_remaining_def split: option.splits)

lemma report_ids_update_refunded [simp]:
  "fst ` set (reports (update_refunded r s)) = fst ` set (reports s)"
  by (force simp: update_refunded_def split: if_splits)

lemma reports_update_tokens_remaining [simp]:
  "reports (update_tokens_remaining u d s) = reports s"
  by (simp add: update_tokens_remaining_def split: option.splits)

lemma token_transactions_update_tokens_remaining [simp]:
  "token_transactions (update_tokens_remaining u d s) = token_transactions s"
  by (simp add: update_tokens_remaining_def split: option.splits)

lemma profiles_update_tokens_remaining_None [simp]:
  "profiles (update_tokens_remaining u d s) v = None \<longleftrightarrow> profiles s v = None"
  by (simp add: update_tokens_remaining_def split: option.splits)

lemma insert_token_transaction_Inr:
  "insert_token_transaction t s = Inr s' \<Longrightarrow>
     s' = s\<lparr>token_transactions := token_transactions s @ [t]\<rparr>"
  by (auto simp: insert_token_transaction_def split: if_splits)

lemma insert_token_transaction_ok:
  "profiles s (txn_user_id t) \<noteq> None \<Longrightarrow> txn_report_id t = Some r \<Longrightarrow>
   r \<in> fst ` set (reports s) \<Longrightarrow>
   insert_token_transaction t s = Inr (s\<lparr>token_transactions := token_transactions s @ [t]\<rparr>)"
  by (auto simp: insert_token_transaction_def map_of_eq_None_iff)

lemma balance_token_transactions_update [simp]:
  "balance (s\<lparr>token_transactions := ts\<rparr>) a = balance s a"
  by (simp add: balance_def select_tokens_remaining_def)

lemma transactions_sum_append:
  "transactions_sum (s\<lparr>token_transactions := token_transactions s @ [t]\<rparr>) a =
     transactions_sum s a + (if txn_user_id t = a then tokens_amount t else 0)"
  by (simp add: transactions_sum_def)

lemma balance_Some_profile: "balance s a = Some b \<Longrightarrow> profiles s a \<noteq> None"
  by (auto simp: balance_def select_tokens_remaining_def split: option.splits)

lemma increment_tokens_in_range:
  "balance s u = Some b \<Longrightarrow> integer_range (b + d) \<Longrightarrow>
     increment_tokens u d s = Inr (update_tokens_remaining u d s)"
  by (simp add: increment_tokens_def balance_def)

lemma increment_tokens_cases:
  "increment_tokens u d s = Inl Integer_out_of_range
   \<or> increment_tokens u d s = Inr (update_tokens_remaining u d s)"
  by (simp add: increment_tokens_def split: option.splits)

lemma create_token_refund_cases:
  "snd (create_token_refund u r reason s) = update_refunded r s
   \<or> snd (create_token_refund u r reason s) =
        (update_refunded r s)\<lparr>token_transactions := token_transactions s @
          [\<lparr>txn_user_id = u, txn_report_id = Some r, transaction_type = ''refund'',
            tokens_amount = 1, description = ''Quality refund: '' @ reason\<rparr>]\<rparr>
   \<or> snd (create_token_refund u r reason s) =
        update_tokens_remaining u 1
          ((update_refunded r s)\<lparr>token_transactions := token_transactions s @
            [\<lparr>txn_user_id = u, txn_report_id = Some r, transaction_type = ''refund'',
              tokens_amount = 1, description = ''Quality refund: '' @ reason\<rparr>]\<rparr>)"
proof -
  let ?t = "\<lparr>txn_user_id = u, txn_report_id = Some r, transaction_type = ''refund'',
             tokens_amount = 1, description = ''Quality refund: '' @ reason\<rparr>"
  let ?s1 = "update_refunded r s"
  let ?s2 = "?s1\<lparr>token_transactions := token_transactions s @ [?t]\<rparr>"
  show ?thesis
  proof (cases "insert_token_transaction ?t ?s1")
    case (Inl e)
    then show ?thesis
      by (simp add: create_token_refund_def)
  next
    case (Inr s2)
    from insert_token_transaction_Inr [OF Inr] have s2: "s2 = ?s2"
      by (simp add: update_refunded_def)
    from increment_tokens_cases [of u 1 ?s2] show ?thesis
    proof
      assume "increment_tokens u 1 ?s2 = Inl Integer_out_of_range"
      with Inr s2 have "snd (create_token_refund u r reason s) = ?s2"
        by (simp add: create_token_refund_def Let_def)
      then show ?thesis by blast
    next
      assume "increment_tokens u 1 ?s2 = Inr (update_tokens_remaining u 1 ?s2)"
      with Inr s2 have "snd (create_token_refund u r reason s) = update_tokens_remaining u 1 ?s2"
        by (simp add: create_token_refund_def Let_def)
      then show ?thesis by blast
    qed
  qed
qed

lemma create_token_refund_balanced:
  assumes "balanced s a" and "u = a \<longrightarrow> integer_range (transactions_sum s a + 1)"
  shows "balanced (snd (create_token_refund u r reason s)) a
       \<and> transactions_sum s a \<le> transactions_sum (snd (create_token_refund u r reason s)) a
       \<and> transactions_sum (snd (create_token_refund u r reason s)) a
            \<le> transactions_sum s a + (if u = a then 1 else 0)"
proof -
  let ?t = "\<lparr>txn_user_id = u, txn_report_id = Some r, transaction_type = ''refund'',
             tokens_amount = 1, description = ''Quality refund: '' @ reason\<rparr>"
  let ?s1 = "update_refunded r s"
  let ?s2 = "?s1\<lparr>token_transactions := token_transactions ?s1 @ [?t]\<rparr>"
  from assms(1) have b: "balance s a = Some (transactions_sum s a)"
    by (simp add: balanced_def)
  show ?thesis
  proof (cases "insert_token_transaction ?t ?s1")
    case (Inl e)
    with b show ?thesis
      by (simp add: create_token_refund_def balanced_def)
  next
    case (Inr s2)
    then have s2: "s2 = ?s2"
      by (rule insert_token_transaction_Inr)
    show ?thesis
    proof (cases "u = a")
      case True
      have b2: "balance ?s2 a = Some (transactions_sum s a)"
        using b by simp
      have sum2: "transactions_sum ?s2 a = transactions_sum s a + 1"
        using True by (simp add: transactions_sum_append)
      from assms(2) True have "integer_range (transactions_sum s a + 1)"
        by simp
      with b2 have "increment_tokens a 1 ?s2 = Inr (update_tokens_remaining a 1 ?s2)"
        by (rule increment_tokens_in_range)
      with Inr s2 True
      have res: "snd (create_token_refund u r reason s) = update_tokens_remaining a 1 ?s2"
        by (simp add: create_token_refund_def Let_def)
      have "balance (update_tokens_remaining a 1 ?s2) a = Some (transactions_sum s a + 1)"
        using b2 by (rule balance_update_tokens_remaining)
      then show ?thesis
        unfolding res balanced_def using True sum2 by simp
    next
      case False
      have sum2: "transactions_sum ?s2 a = transactions_sum s a"
        using False by (simp add: transactions_sum_append)
      have b2: "balance ?s2 a = Some (transactions_sum s a)"
        using b by simp
      from increment_tokens_cases [of u 1 ?s2] show ?thesis
      proof
        assume "increment_tokens u 1 ?s2 = Inl Integer_out_of_range"
        with Inr s2 have "snd (create_token_refund u r reason s) = ?s2"
          by (simp add: create_token_refund_def Let_def)
        with b2 sum2 False show ?thesis
          by (simp add: balanced_def)
      next
        assume "increment_tokens u 1 ?s2 = Inr (update_tokens_remaining u 1 ?s2)"
        with Inr s2
        have res: "snd (create_token_refund u r reason s) = update_tokens_remaining u 1 ?s2"
          by (simp add: create_token_refund_def Let_def)
        show ?thesis
          unfolding res balanced_def using False b2 sum2
          by (simp add: balance_update_tokens_remaining_other)
      qed
    qed
  qed
qed

lemma create_token_refund_report_ids:
  "fst ` set (reports (snd (create_token_refund u r reason s))) = fst ` set (reports s)"
  using create_token_refund_cases [of u r reason s]
  by (elim disjE) simp_all

lemma log_usage_reports [simp]: "reports (log_usage u r t s) = reports s"
  by (auto simp: log_usage_def dest!: insert_token_transaction_Inr split: sum.splits)

lemma charge_reports: "reports (charge u r t s) = reports s"
  by (auto simp: charge_def deduct_token_def Let_def split: sum.splits if_splits)

lemma charge_balanced:
  assumes "balanced s a" and "r \<in> fst ` set (reports s)"
  shows "balanced (charge u r t s) a
       \<and> (transactions_sum (charge u r t s) a = transactions_sum s a
          \<or> transactions_sum (charge u r t s) a = transactions_sum s a - 1
            \<and> 1 \<le> transactions_sum s a)"
proof (cases "deduct_token u s")
  case (Inl e)
  with assms show ?thesis by (simp add: charge_def)
next
  case (Inr s')
  then have s': "s' = update_tokens_remaining u (- 1) s"
    by (auto simp: deduct_token_def Let_def split: if_splits)
  let ?t = "\<lparr>txn_user_id = u, txn_report_id = Some r, transaction_type = ''usage'',
             tokens_amount = - 1, description = ''Cached report for '' @ t\<rparr>"
  have res: "charge u r t s = log_usage u r t s'"
    using Inr by (simp add: charge_def)
  show ?thesis
  proof (cases "u = a")
    case True
    from assms(1) have b: "balance s a = Some (transactions_sum s a)"
      by (simp add: balanced_def)
    have pos: "1 \<le> transactions_sum s a"
    proof (rule ccontr)
      assume "\<not> 1 \<le> transactions_sum s a"
      then have "transactions_sum s a < 1" by simp
      from deduct_token_fails [OF b this] Inr True show False by simp
    qed
    from b have "profiles s' (txn_user_id ?t) \<noteq> None"
      using True by (simp add: s' balance_Some_profile)
    moreover have "r \<in> fst ` set (reports s')"
      using assms(2) by (simp add: s')
    ultimately have "insert_token_transaction ?t s'
        = Inr (s'\<lparr>token_transactions := token_transactions s' @ [?t]\<rparr>)"
      by (intro insert_token_transaction_ok) simp_all
    then have log: "log_usage u r t s' = s'\<lparr>token_transactions := token_transactions s' @ [?t]\<rparr>"
      by (simp add: log_usage_def)
    have "balance s' a = Some (transactions_sum s a + - 1)"
      unfolding s' True by (rule balance_update_tokens_remaining [OF b])
    then have 1: "balance (log_usage u r t s') a = Some (transactions_sum s a - 1)"
      unfolding log by simp
    have "transactions_sum s' a = transactions_sum s a"
      unfolding s' by simp
    then have 2: "transactions_sum (log_usage u r t s') a = transactions_sum s a - 1"
      unfolding log transactions_sum_append using True by simp
    show ?thesis
      unfolding res balanced_def 1 2 using pos by simp
  next
    case False
    have "balance (log_usage u r t s') a = balance s' a"
      by (auto simp: log_usage_def dest!: insert_token_transaction_Inr split: sum.splits)
    moreover have "transactions_sum (log_usage u r t s') a = transactions_sum s' a"
      using False
      by (auto simp: log_usage_def transactions_sum_append
          dest!: insert_token_transaction_Inr split: sum.splits)
    ultimately show ?thesis
      using False assms(1)
      by (simp add: res balanced_def s' balance_update_tokens_remaining_other)
  qed
qed

lemma fold_paired_balanced:
  "balanced s a \<Longrightarrow> set (charged_reports ops) \<subseteq> fst ` set (reports s) \<Longrightarrow>
   integer_range (transactions_sum s a) \<Longrightarrow>
   integer_range (transactions_sum s a + int (refunds_to a ops)) \<Longrightarrow>
   balanced (fold apply_paired_op ops s) a"
proof (induction ops arbitrary: s)
  case Nil
  then show ?case by simp
next
  case (Cons op ops)
  let ?s1 = "apply_paired_op op s"
  have step: "balanced ?s1 a \<and> integer_range (transactions_sum ?s1 a)
      \<and> integer_range (transactions_sum ?s1 a + int (refunds_to a ops))"
  proof (cases op)
    case (Charge u r t)
    with Cons.prems(2) have "r \<in> fst ` set (reports s)"
      by simp
    from charge_balanced [OF Cons.prems(1) this, of u t] Cons.prems(3,4) Charge
    show ?thesis
      by (auto simp: integer_range_def)
  next
    case (Refund_report u r reason)
    have "u = a \<longrightarrow> integer_range (transactions_sum s a + 1)"
      using Cons.prems(3,4) Refund_report by (auto simp: integer_range_def)
    from create_token_refund_balanced [OF Cons.prems(1) this, of r reason]
      Cons.prems(3,4) Refund_report
    show ?thesis
      by (auto simp: integer_range_def split: if_splits)
  qed
  moreover have "set (charged_reports ops) \<subseteq> fst ` set (reports ?s1)"
    using Cons.prems(2) by (cases op) (simp_all add: charge_reports create_token_refund_report_ids)
  ultimately show ?case
    using Cons.IH [of ?s1] by simp
qed

lemma charged_reports_take: "set (charged_reports (take n ops)) \<subseteq> set (charged_reports ops)"
proof (induction ops arbitrary: n)
  case Nil
  then show ?case by simp
next
  case (Cons op ops)
  show ?case
  proof (cases n)
    case 0
    then show ?thesis by simp
  next
    case (Suc m)
    with Cons.IH [of m] show ?thesis by (cases op) auto
  qed
qed

lemma refunds_to_take: "refunds_to a (take n ops) \<le> refunds_to a ops"
proof (induction ops arbitrary: n)
  case Nil
  then show ?case by simp
next
  case (Cons op ops)
  show ?case
  proof (cases n)
    case 0
    then show ?thesis by simp
  next
    case (Suc m)
    with Cons.IH [of m] show ?thesis by (cases op) auto
  qed
qed

text \<open>
  C1, as stated, over the three operations taken one by one: fails after a debit. An
  account with balance 1 and one purchase of 1 is balanced; \<^verbatim>\<open>deduct_token\<close> lowers the
  balance to 0 and writes no transaction, so the sum is still 1.
\<close>

theorem balance_invariant_debit_counterexample:
  "balanced \<lparr>profiles = [7 \<mapsto> Some 1], reports = [],
      token_transactions = [\<lparr>txn_user_id = 7, txn_report_id = None,
        transaction_type = ''purchase'', tokens_amount = 1, description = ''Purchased''\<rparr>],
      error_logs = []\<rparr> 7
   \<and> \<not> balanced (fold apply_ledger_op [Debit 7]
      \<lparr>profiles = [7 \<mapsto> Some 1], reports = [],
        token_transactions = [\<lparr>txn_user_id = 7, txn_report_id = None,
          transaction_type = ''purchase'', tokens_amount = 1, description = ''Purchased''\<rparr>],
        error_logs = []\<rparr>) 7"
  by (simp add: balanced_def balance_def select_tokens_remaining_def transactions_sum_def
      deduct_token_def sql_lt_def update_tokens_remaining_def)

text \<open>
  C1, amended: when every debit is taken together with the logging of its usage
  transaction for an existing report (as the cache-hit path does), then over every
  sequence of such charges and of refunds by \<^verbatim>\<open>create_token_refund\<close> an account whose
  balance equals the sum of its transaction amounts keeps that equality after each
  operation of the sequence (every prefix \<open>take n ops\<close>), as long as the balance stays in
  the range of the 32-bit \<^verbatim>\<open>INTEGER\<close> column: the balance at the start is in the range, and
  so is that balance plus the number of refunds to the account in the sequence. After a
  successful \<^verbatim>\<open>deduct_token\<close> alone the balance is one less than the sum.
\<close>

theorem balance_invariant_paired_operations:
  assumes "balanced s a" and "set (charged_reports ops) \<subseteq> fst ` set (reports s)"
    and "integer_range (transactions_sum s a)"
    and "integer_range (transactions_sum s a + int (refunds_to a ops))"
  shows "balanced (fold apply_paired_op (take n ops) s) a
       \<and> (\<forall>s'. deduct_token a s = Inr s' \<longrightarrow>
             balance s' a = Some (transactions_sum s' a - 1))"
proof
  have "integer_range (transactions_sum s a + int (refunds_to a (take n ops)))"
    using assms(3,4) refunds_to_take [of a n ops] by (simp add: integer_range_def)
  moreover have "set (charged_reports (take n ops)) \<subseteq> fst ` set (reports s)"
    using assms(2) charged_reports_take [of n ops] by auto
  ultimately show "balanced (fold apply_paired_op (take n ops) s) a"
    using assms(1,3) by (intro fold_paired_balanced)
next
  from assms(1) have b: "balance s a = Some (transactions_sum s a)"
    by (simp add: balanced_def)
  show "\<forall>s'. deduct_token a s = Inr s' \<longrightarrow> balance s' a = Some (transactions_sum s' a - 1)"
    using balance_update_tokens_remaining [OF b, of "- 1"]
    by (auto simp: deduct_token_def Let_def split: if_splits)
qed

lemma balanced_tst_db: "balanced (tst_db b) 7"
  by (simp add: balanced_def balance_def select_tokens_remaining_def transactions_sum_def
      tst_db_def purchase_def)

lemma transactions_sum_tst_db: "transactions_sum (tst_db b) 7 = b"
  by (simp add: transactions_sum_def tst_db_def purchase_def)

theorem balance_invariant_paired_operations_witness:
  "balanced (tst_db 1) 7
   \<and> set (charged_reports [Charge 7 1 ''TST'', Refund_report 7 1 ''Item 7'']) \<subseteq>
       fst ` set (reports (tst_db 1))
   \<and> integer_range (transactions_sum (tst_db 1) 7)
   \<and> integer_range (transactions_sum (tst_db 1) 7
        + int (refunds_to 7 [Charge 7 1 ''TST'', Refund_report 7 1 ''Item 7'']))
   \<and> balanced (fold apply_paired_op
         (take 2 [Charge 7 1 ''TST'', Refund_report 7 1 ''Item 7'']) (tst_db 1)) 7
   \<and> balance (fold apply_paired_op
         (take 2 [Charge 7 1 ''TST'', Refund_report 7 1 ''Item 7'']) (tst_db 1)) 7 = Some 1"
proof -
  let ?ops = "[Charge 7 1 ''TST'', Refund_report 7 1 ''Item 7'']"
  have h1: "balanced (tst_db 1) 7"
    by (rule balanced_tst_db)
  have h2: "set (charged_reports ?ops) \<subseteq> fst ` set (reports (tst_db 1))"
    by (simp add: tst_db_def)
  have h3: "integer_range (transactions_sum (tst_db 1) 7)"
    by (simp add: transactions_sum_tst_db integer_range_def)
  have h4: "integer_range (transactions_sum (tst_db 1) 7 + int (refunds_to 7 ?ops))"
    by (simp add: transactions_sum_tst_db integer_range_def)
  have "balance (fold apply_paired_op (take 2 ?ops) (tst_db 1)) 7 = Some 1"
    by (simp add: tst_db_def charge_def deduct_token_def select_tokens_remaining_def sql_lt_def
        update_tokens_remaining_def log_usage_def insert_token_transaction_def
        create_token_refund_def update_refunded_def increment_tokens_def integer_range_def
        balance_def)
  with h1 h2 h3 h4 balance_invariant_paired_operations [OF h1 h2 h3 h4, of 2] show ?thesis
    by simp
qed

subsection \<open>Refund\<close>

lemma map_of_update_refunded:
  "map_of (reports (update_refunded r s)) i =
     (if i = r then map_option (\<lambda>x. x\<lparr>refunded := True\<rparr>) (map_of (reports s) i)
      else map_of (reports s) i)"
proof -
  have "map_of (map (\<lambda>(i, x). if i = r then (i, x\<lparr>refunded := True\<rparr>) else (i, x)) xs) i =
     (if i = r then map_option (\<lambda>x. x\<lparr>refunded := True\<rparr>) (map_of xs i) else map_of xs i)"
    for xs :: "(uuid \<times> report) list"
    by (induction xs) auto
  then show ?thesis
    by (simp add: update_refunded_def)
qed

lemma refunds_of_update_tokens_remaining [simp]:
  "refunds_of (update_tokens_remaining u d s) r = refunds_of s r"
  by (simp add: refunds_of_def)

lemma create_token_refund_once:
  assumes "profiles s u \<noteq> None" and "r \<in> fst ` set (reports s)"
  shows "\<exists>e s1. create_token_refund u r reason s = (e, s1)
       \<and> profiles s1 u \<noteq> None
       \<and> r \<in> fst ` set (reports s1)
       \<and> token_transactions s1 = token_transactions s @
           [\<lparr>txn_user_id = u, txn_report_id = Some r, transaction_type = ''refund'',
             tokens_amount = 1, description = ''Quality refund: '' @ reason\<rparr>]
       \<and> (\<exists>x. map_of (reports s1) r = Some x \<and> refunded x)
       \<and> (\<forall>b. balance s u = Some b \<and> integer_range (b + 1) \<longrightarrow>
             e = None \<and> balance s1 u = Some (b + 1))"
proof -
  let ?t = "\<lparr>txn_user_id = u, txn_report_id = Some r, transaction_type = ''refund'',
             tokens_amount = 1, description = ''Quality refund: '' @ reason\<rparr>"
  let ?s1 = "update_refunded r s"
  let ?s2 = "?s1\<lparr>token_transactions := token_transactions ?s1 @ [?t]\<rparr>"
  let ?s3 = "update_tokens_remaining u 1 ?s2"
  have "profiles ?s1 (txn_user_id ?t) \<noteq> None"
    using assms(1) by (simp add: update_refunded_def)
  moreover have "r \<in> fst ` set (reports ?s1)"
    using assms(2) by simp
  ultimately have ins: "insert_token_transaction ?t ?s1 = Inr ?s2"
    by (intro insert_token_transaction_ok) simp_all
  from assms(2) obtain x where "map_of (reports s) r = Some x"
    by (metis map_of_eq_None_iff not_Some_eq)
  then have flag2: "\<exists>x. map_of (reports ?s2) r = Some x \<and> refunded x"
    by (simp add: map_of_update_refunded)
  then have flag3: "\<exists>x. map_of (reports ?s3) r = Some x \<and> refunded x"
    by simp
  have p2: "profiles ?s2 u \<noteq> None"
    using assms(1) by (simp add: update_refunded_def)
  then have p3: "profiles ?s3 u \<noteq> None"
    by simp
  have ids2: "r \<in> fst ` set (reports ?s2)" and ids3: "r \<in> fst ` set (reports ?s3)"
    using assms(2) by simp_all
  have tt2: "token_transactions ?s2 = token_transactions s @ [?t]"
    and tt3: "token_transactions ?s3 = token_transactions s @ [?t]"
    by (simp_all add: update_refunded_def)
  have ok: "increment_tokens u 1 ?s2 = Inr ?s3 \<and> balance ?s3 u = Some (b + 1)"
    if "balance s u = Some b" and "integer_range (b + 1)" for b
  proof -
    from that(1) have b2: "balance ?s2 u = Some b"
      by simp
    from increment_tokens_in_range [OF b2 that(2)] balance_update_tokens_remaining [OF b2, of 1]
    show ?thesis by simp
  qed
  from increment_tokens_cases [of u 1 ?s2] show ?thesis
  proof
    assume inc: "increment_tokens u 1 ?s2 = Inl Integer_out_of_range"
    with ins have res: "create_token_refund u r reason s = (Some Integer_out_of_range, ?s2)"
      by (simp add: create_token_refund_def Let_def)
    from inc ok have "\<forall>b. balance s u = Some b \<and> integer_range (b + 1) \<longrightarrow>
        Some Integer_out_of_range = None \<and> balance ?s2 u = Some (b + 1)"
      by auto
    with res p2 ids2 tt2 flag2 show ?thesis
      by blast
  next
    assume inc: "increment_tokens u 1 ?s2 = Inr ?s3"
    with ins have res: "create_token_refund u r reason s = (None, ?s3)"
      by (simp add: create_token_refund_def Let_def)
    from ok have "\<forall>b. balance s u = Some b \<and> integer_range (b + 1) \<longrightarrow>
        (None :: error option) = None \<and> balance ?s3 u = Some (b + 1)"
      by blast
    with res p3 ids3 tt3 flag3 show ?thesis
      by blast
  qed
qed

text \<open>
  C4, as stated: fails. On the scenario store with balance 0, two calls of
  \<^verbatim>\<open>create_token_refund\<close> for report 1 both return without an exception, write two refund
  transactions and leave the balance at 2, not at 1.
\<close>

theorem create_token_refund_twice_counterexample:
  "fst (create_token_refund 7 1 ''Item 7'' (tst_db 0)) = None
   \<and> fst (create_token_refund 7 1 ''Item 7''
        (snd (create_token_refund 7 1 ''Item 7'' (tst_db 0)))) = None
   \<and> balance (snd (create_token_refund 7 1 ''Item 7''
        (snd (create_token_refund 7 1 ''Item 7'' (tst_db 0))))) 7 = Some 2
   \<and> length (refunds_of (snd (create_token_refund 7 1 ''Item 7''
        (snd (create_token_refund 7 1 ''Item 7'' (tst_db 0))))) 1) = 2"
  by (simp add: tst_db_def purchase_def create_token_refund_def update_refunded_def
      insert_token_transaction_def increment_tokens_def integer_range_def
      update_tokens_remaining_def balance_def select_tokens_remaining_def refunds_of_def)

text \<open>
  C4, amended: \<^verbatim>\<open>create_token_refund\<close> does not look at the report's \<^verbatim>\<open>refunded\<close> flag.
  For an account that has a profile row and an existing report, every call sets the flag
  and appends one refund transaction of +1, so two calls for the same report append two
  refund transactions and the sum of the account's transactions rises by 2. When the
  balance is an integer \<open>b\<close> and \<open>b + 1\<close> and \<open>b + 2\<close> are in the range of the 32-bit
  \<^verbatim>\<open>INTEGER\<close> column, both calls return without an error and the balance is \<open>b + 1\<close> after
  the first and \<open>b + 2\<close> after the second. Only the setting of the flag is idempotent.
\<close>

theorem create_token_refund_applies_on_every_call:
  assumes "profiles s u \<noteq> None" and "r \<in> fst ` set (reports s)"
  shows "\<exists>e1 s1 e2 s2. create_token_refund u r reason s = (e1, s1)
       \<and> create_token_refund u r reason s1 = (e2, s2)
       \<and> token_transactions s2 = token_transactions s @
           [\<lparr>txn_user_id = u, txn_report_id = Some r, transaction_type = ''refund'',
             tokens_amount = 1, description = ''Quality refund: '' @ reason\<rparr>,
            \<lparr>txn_user_id = u, txn_report_id = Some r, transaction_type = ''refund'',
             tokens_amount = 1, description = ''Quality refund: '' @ reason\<rparr>]
       \<and> length (refunds_of s1 r) = length (refunds_of s r) + 1
       \<and> length (refunds_of s2 r) = length (refunds_of s r) + 2
       \<and> transactions_sum s2 u = transactions_sum s u + 2
       \<and> (\<exists>x. map_of (reports s1) r = Some x \<and> refunded x)
       \<and> (\<exists>x. map_of (reports s2) r = Some x \<and> refunded x)
       \<and> (\<forall>b. balance s u = Some b \<and> integer_range (b + 1) \<and> integer_range (b + 2) \<longrightarrow>
             e1 = None \<and> e2 = None \<and> balance s1 u = Some (b + 1)
             \<and> balance s2 u = Some (b + 2))"
proof -
  let ?t = "\<lparr>txn_user_id = u, txn_report_id = Some r, transaction_type = ''refund'',
             tokens_amount = 1, description = ''Quality refund: '' @ reason\<rparr>"
  from create_token_refund_once [OF assms, of reason] obtain e1 s1 where
    1: "create_token_refund u r reason s = (e1, s1)" "profiles s1 u \<noteq> None"
       "r \<in> fst ` set (reports s1)" "token_transactions s1 = token_transactions s @ [?t]"
       "\<exists>x. map_of (reports s1) r = Some x \<and> refunded x"
       "\<forall>b. balance s u = Some b \<and> integer_range (b + 1) \<longrightarrow>
             e1 = None \<and> balance s1 u = Some (b + 1)"
    by blast
  from create_token_refund_once [OF 1(2) 1(3), of reason] obtain e2 s2 where
    2: "create_token_refund u r reason s1 = (e2, s2)"
       "token_transactions s2 = token_transactions s1 @ [?t]"
       "\<exists>x. map_of (reports s2) r = Some x \<and> refunded x"
       "\<forall>b. balance s1 u = Some b \<and> integer_range (b + 1) \<longrightarrow>
             e2 = None \<and> balance s2 u = Some (b + 1)"
    by blast
  have tt: "token_transactions s2 = token_transactions s @ [?t, ?t]"
    using 1(4) 2(2) by simp
  have c1: "length (refunds_of s1 r) = length (refunds_of s r) + 1"
    using 1(4) by (simp add: refunds_of_def)
  have c2: "length (refunds_of s2 r) = length (refunds_of s r) + 2"
    using tt by (simp add: refunds_of_def)
  have sum: "transactions_sum s2 u = transactions_sum s u + 2"
    using tt by (simp add: transactions_sum_def)
  have bal: "\<forall>b. balance s u = Some b \<and> integer_range (b + 1) \<and> integer_range (b + 2) \<longrightarrow>
             e1 = None \<and> e2 = None \<and> balance s1 u = Some (b + 1)
             \<and> balance s2 u = Some (b + 2)"
  proof (intro allI impI)
    fix b
    assume h: "balance s u = Some b \<and> integer_range (b + 1) \<and> integer_range (b + 2)"
    with 1(6) have a: "e1 = None" "balance s1 u = Some (b + 1)"
      by blast+
    from h have "integer_range (b + 1 + 1)"
      by (simp add: add.assoc)
    with 2(4) a(2) have "e2 = None \<and> balance s2 u = Some (b + 1 + 1)"
      by blast
    with a show "e1 = None \<and> e2 = None \<and> balance s1 u = Some (b + 1)
        \<and> balance s2 u = Some (b + 2)"
      by simp
  qed
  from 1(1) 2(1) tt c1 c2 sum 1(5) 2(3) bal show ?thesis
    by blast
qed

theorem create_token_refund_applies_on_every_call_witness:
  "profiles (tst_db 0) 7 \<noteq> None \<and> 1 \<in> fst ` set (reports (tst_db 0))
   \<and> balance (tst_db 0) 7 = Some 0 \<and> integer_range (0 + 1) \<and> integer_range (0 + 2)
   \<and> (\<exists>s1 s2. create_token_refund 7 1 ''Item 7'' (tst_db 0) = (None, s1)
       \<and> create_token_refund 7 1 ''Item 7'' s1 = (None, s2)
       \<and> balance s2 7 = Some 2
       \<and> length (refunds_of s2 1) = 2)"
proof -
  have h1: "profiles (tst_db 0) 7 \<noteq> None"
    by (simp add: tst_db_def)
  have h2: "1 \<in> fst ` set (reports (tst_db 0))"
    by (simp add: tst_db_def)
  have h3: "balance (tst_db 0) 7 = Some 0"
    by (simp add: tst_db_def balance_def select_tokens_remaining_def)
  have h4: "integer_range (0 + 1) \<and> integer_range (0 + 2)"
    by (simp add: integer_range_def)
  have h5: "length (refunds_of (tst_db 0) 1) = 0"
    by (simp add: refunds_of_def tst_db_def purchase_def)
  from create_token_refund_applies_on_every_call [OF h1 h2, of "''Item 7''"] h1 h2 h3 h4 h5
  show ?thesis
    by auto
qed

text \<open>
  At the top of the column's range the refund is not applied in full: the flag and the
  refund transaction are written, the increment is refused, and the call raises.
\<close>

lemma create_token_refund_at_integer_maximum:
  "fst (create_token_refund 7 1 ''Item 7'' (tst_db 2147483647)) = Some Integer_out_of_range
   \<and> balance (snd (create_token_refund 7 1 ''Item 7'' (tst_db 2147483647))) 7
       = Some 2147483647
   \<and> length (refunds_of (snd (create_token_refund 7 1 ''Item 7'' (tst_db 2147483647))) 1) = 1"
  by (simp add: tst_db_def purchase_def create_token_refund_def update_refunded_def
      insert_token_transaction_def increment_tokens_def integer_range_def
      update_tokens_remaining_def balance_def select_tokens_remaining_def refunds_of_def)

subsection \<open>The Quality Gate\<close>

lemma set_check_length_sections:
  "set (check_length_sections secs iss) =
     set iss \<union> {too_short n (length (split c)) m | n c m.
        (n, c) \<in> set secs \<and> min_word_counts n = Some m \<and> length (split c) < m}"
proof (induction secs arbitrary: iss)
  case Nil
  then show ?case by simp
next
  case (Cons x secs)
  obtain n c where x: "x = (n, c)" by (cases x)
  show ?case
    unfolding x by (auto simp: Cons.IH Let_def split: option.splits)
qed

lemma set_check_length:
  "set (check_length filings iss) =
     set iss \<union> {too_short n (length (split c)) m | f n c m.
        f \<in> set filings \<and> (n, c) \<in> set (sections f) \<and> min_word_counts n = Some m
        \<and> length (split c) < m}"
proof (induction filings arbitrary: iss)
  case Nil
  then show ?case by simp
next
  case (Cons f filings)
  show ?case
    by (simp add: Cons.IH set_check_length_sections) blast
qed

lemma drop_append_const: "2 \<le> length ys \<Longrightarrow> drop (length (xs @ ys) - 2) (xs @ ys) = drop (length ys - 2) ys"
  by simp

lemma ends_plus_paren_too_short: "ends_plus_paren (too_short n k m)"
proof -
  have "too_short n k m = (n @ '': Content too short ('' @ str k @ '' words, expected '' @ str m) @ ''+)''"
    by (simp add: too_short_def)
  then show ?thesis
    unfolding ends_plus_paren_def by (simp del: append_assoc)
qed

lemma not_ends_plus_paren_numbers:
  "\<not> ends_plus_paren (n @ '': Appears to be mostly tables/numbers (may indicate extraction error)'')"
  unfolding ends_plus_paren_def
  by (subst drop_append_const) simp_all

lemma ends_plus_paren_last: "ends_plus_paren msg \<Longrightarrow> last msg = CHR '')''"
proof -
  assume a: "ends_plus_paren msg"
  then have "msg = take (length msg - 2) msg @ ''+)''"
    unfolding ends_plus_paren_def by (metis append_take_drop_id)
  then have "last msg = last (take (length msg - 2) msg @ ''+)'')"
    by simp
  then show ?thesis
    by (simp del: append_take_drop_id)
qed

lemma join_nonempty: "xs \<noteq> [] \<Longrightarrow> \<forall>x \<in> set xs. x \<noteq> [] \<Longrightarrow> join sep xs \<noteq> []"
  by (induction sep xs rule: join.induct) auto

lemma last_join:
  "xs \<noteq> [] \<Longrightarrow> \<forall>x \<in> set xs. x \<noteq> [] \<Longrightarrow> last (join sep xs) = last (last xs)"
proof (induction sep xs rule: join.induct)
  case (3 sep x y ys)
  then have "join sep (y # ys) \<noteq> []"
    by (intro join_nonempty) auto
  with 3 show ?case by simp
qed simp_all

lemma not_ends_plus_paren_missing:
  assumes "missing \<noteq> []" and "set missing \<subseteq> set required_sections"
  shows "\<not> ends_plus_paren (''Missing sections: '' @ join '', '' missing)"
proof
  assume "ends_plus_paren (''Missing sections: '' @ join '', '' missing)"
  then have l: "last (''Missing sections: '' @ join '', '' missing) = CHR '')''"
    by (rule ends_plus_paren_last)
  have ne: "\<forall>x \<in> set missing. x \<noteq> []"
    using assms(2) by (auto simp: required_sections_def)
  from join_nonempty [OF assms(1) ne] l have "last (join '', '' missing) = CHR '')''"
    by simp
  then have "last (last missing) = CHR '')''"
    using last_join [OF assms(1) ne] by simp
  moreover have "last missing \<in> set required_sections"
    using assms by auto
  ultimately show False
    by (auto simp: required_sections_def)
qed

lemma set_check_required:
  "set (check_required filings iss) \<subseteq> set iss \<union> {msg. \<not> ends_plus_paren msg}"
proof (induction filings arbitrary: iss)
  case Nil
  then show ?case by simp
next
  case (Cons f filings)
  let ?missing = "filter (\<lambda>s. s \<notin> set (map fst (sections f))) required_sections"
  show ?case
  proof (cases "?missing = []")
    case True
    then show ?thesis
      using Cons.IH [of iss] by (simp add: Let_def)
  next
    case False
    have "\<not> ends_plus_paren (''Missing sections: '' @ join '', '' ?missing)"
      by (rule not_ends_plus_paren_missing [OF False]) auto
    then show ?thesis
      using False Cons.IH [of "iss @ [''Missing sections: '' @ join '', '' ?missing]"]
      by (auto simp: Let_def)
  qed
qed

lemma set_check_numbers_sections:
  "set (check_numbers_sections secs iss) \<subseteq> set iss \<union> {msg. \<not> ends_plus_paren msg}
   \<and> set iss \<subseteq> set (check_numbers_sections secs iss)"
proof (induction secs arbitrary: iss)
  case Nil
  then show ?case by simp
next
  case (Cons x secs)
  obtain n c where x: "x = (n, c)" by (cases x)
  let ?msg = "n @ '': Appears to be mostly tables/numbers (may indicate extraction error)''"
  from Cons.IH [of iss] Cons.IH [of "iss @ [?msg]"] not_ends_plus_paren_numbers [of n]
  show ?case
    unfolding x check_numbers_sections.simps Let_def
    by (auto split: if_splits)
qed

lemma set_check_numbers:
  "set (check_numbers filings iss) \<subseteq> set iss \<union> {msg. \<not> ends_plus_paren msg}
   \<and> set iss \<subseteq> set (check_numbers filings iss)"
proof (induction filings arbitrary: iss)
  case Nil
  then show ?case by simp
next
  case (Cons f filings)
  from Cons.IH [of "check_numbers_sections (sections f) iss"]
    set_check_numbers_sections [of "sections f" iss]
  show ?case
    by auto
qed

lemma set_check_summaries:
  "set (check_summaries a iss) \<subseteq> set iss \<union> {msg. \<not> ends_plus_paren msg}
   \<and> set iss \<subseteq> set (check_summaries a iss)"
  by (auto simp: check_summaries_def ends_plus_paren_def)

lemma issues_validate_extraction:
  "issues (validate_extraction filings d a) =
     check_summaries a (check_numbers filings (check_length filings (check_required filings [])))"
  by (simp add: validate_extraction_def Let_def)

lemma isspace_simps [simp]: "isspace CHR '' ''" "\<not> isspace CHR ''w''" "\<not> isspace CHR ''o''"
  "\<not> isspace CHR ''r''" "\<not> isspace CHR ''d''"
  by (simp_all add: isspace_def)

lemma split_from_words_text: "split_from [] (words_text n) = replicate n ''word''"
  by (induction n) (simp_all add: words_text_def)

lemma split_words_text: "length (split (words_text n)) = n"
  by (simp add: split_def split_from_words_text)

text \<open>
  C9: a present section with a per-section minimum whose word count is below the minimum
  puts into the issues of \<^verbatim>\<open>validate_extraction\<close> the message that starts with the section
  name, contains the decimal word count and the decimal minimum and ends in \<^verbatim>\<open>+)\<close>, and the
  result is not valid. Conversely every issue of the too-short form in the result (ending in \<^verbatim>\<open>+)\<close>, as
  no issue of the other three checks does) is that message of some present section below
  its minimum: a section that meets its minimum contributes none.
\<close>

theorem validate_extraction_too_short:
  "(\<forall>f n c m. f \<in> set filings \<and> (n, c) \<in> set (sections f) \<and> min_word_counts n = Some m
        \<and> length (split c) < m \<longrightarrow>
      too_short n (length (split c)) m \<in> set (issues (validate_extraction filings d a))
      \<and> ends_plus_paren (too_short n (length (split c)) m)
      \<and> prefix n (too_short n (length (split c)) m)
      \<and> sublist (str (length (split c))) (too_short n (length (split c)) m)
      \<and> sublist (str m) (too_short n (length (split c)) m)
      \<and> \<not> is_valid (validate_extraction filings d a))
   \<and> (\<forall>msg \<in> set (issues (validate_extraction filings d a)). ends_plus_paren msg \<longrightarrow>
        (\<exists>f n c m. f \<in> set filings \<and> (n, c) \<in> set (sections f) \<and> min_word_counts n = Some m
           \<and> length (split c) < m \<and> msg = too_short n (length (split c)) m))"
proof (intro conjI allI impI ballI)
  fix f n c m
  assume h: "f \<in> set filings \<and> (n, c) \<in> set (sections f) \<and> min_word_counts n = Some m
        \<and> length (split c) < m"
  let ?k = "length (split c)"
  let ?l = "check_length filings (check_required filings [])"
  from h have "too_short n ?k m \<in> set ?l"
    unfolding set_check_length by blast
  then have "too_short n ?k m \<in> set (check_numbers filings ?l)"
    using set_check_numbers [of filings ?l] by blast
  then show mem: "too_short n ?k m \<in> set (issues (validate_extraction filings d a))"
    unfolding issues_validate_extraction
    using set_check_summaries [of a "check_numbers filings ?l"] by blast
  show "ends_plus_paren (too_short n ?k m)"
    by (rule ends_plus_paren_too_short)
  show "prefix n (too_short n ?k m)"
    by (simp add: too_short_def)
  have "too_short n ?k m = (n @ '': Content too short ('') @ str ?k
          @ ('' words, expected '' @ str m @ ''+)'')"
    by (simp add: too_short_def)
  then show "sublist (str ?k) (too_short n ?k m)"
    by (metis sublist_appendI)
  have "too_short n ?k m = (n @ '': Content too short ('' @ str ?k @ '' words, expected '')
          @ str m @ ''+)''"
    by (simp add: too_short_def)
  then show "sublist (str m) (too_short n ?k m)"
    by (metis sublist_appendI)
  from mem have "issues (validate_extraction filings d a) \<noteq> []"
    by auto
  then show "\<not> is_valid (validate_extraction filings d a)"
    by (simp add: validate_extraction_def Let_def)
next
  fix msg
  assume m: "msg \<in> set (issues (validate_extraction filings d a))" and e: "ends_plus_paren msg"
  let ?l1 = "check_required filings []"
  let ?l2 = "check_length filings ?l1"
  let ?l3 = "check_numbers filings ?l2"
  from m e have "msg \<in> set ?l3"
    unfolding issues_validate_extraction using set_check_summaries [of a ?l3] by blast
  with e have "msg \<in> set ?l2"
    using set_check_numbers [of filings ?l2] by blast
  moreover from e have "msg \<notin> set ?l1"
    using set_check_required [of filings "[]"] by auto
  ultimately show "\<exists>f n c m. f \<in> set filings \<and> (n, c) \<in> set (sections f)
       \<and> min_word_counts n = Some m \<and> length (split c) < m
       \<and> msg = too_short n (length (split c)) m"
    unfolding set_check_length by blast
qed

text \<open>The spec's example: 200 words in Item 1A against its minimum of 5000.\<close>

theorem validate_extraction_too_short_witness:
  "''Item 1A: Content too short (200 words, expected 5000+)''
     \<in> set (issues (validate_extraction
         [\<lparr>filing_date = ''2024-02-01'', accession = ''0000000000-24-000001'',
           filing_company_name = ''Test Co'', sections = [(''Item 1A'', words_text 200)]\<rparr>]
         () \<lparr>summaries = [], total_cost_usd = 0, total_tokens = 0\<rparr>))
   \<and> ends_plus_paren ''Item 1A: Content too short (200 words, expected 5000+)''"
proof -
  let ?f = "\<lparr>filing_date = ''2024-02-01'', accession = ''0000000000-24-000001'',
           filing_company_name = ''Test Co'', sections = [(''Item 1A'', words_text 200)]\<rparr>"
  let ?a = "\<lparr>summaries = [], total_cost_usd = 0, total_tokens = 0\<rparr>"
  have h: "?f \<in> set [?f] \<and> (''Item 1A'', words_text 200) \<in> set (sections ?f)
        \<and> min_word_counts ''Item 1A'' = Some 5000
        \<and> length (split (words_text 200)) < 5000"
    by (simp add: min_word_counts_def split_words_text)
  have msg: "too_short ''Item 1A'' (length (split (words_text 200))) 5000
      = ''Item 1A: Content too short (200 words, expected 5000+)''"
    by (simp add: split_words_text too_short_def str.simps digit_char_def)
  from validate_extraction_too_short [of "[?f]" "()" ?a] h
  have "too_short ''Item 1A'' (length (split (words_text 200))) 5000
      \<in> set (issues (validate_extraction [?f] () ?a))"
    by blast
  then show ?thesis
    unfolding msg by (simp add: ends_plus_paren_def)
qed

subsection \<open>Company search\<close>

lemma score_le: "score t c \<le> 10000"
  by (simp add: score_def Let_def)

lemma score_exact_iff: "score t c = 10000 \<longleftrightarrow> toLowerCase (c_ticker c) = t"
  by (simp add: score_def Let_def)

lemma sorted_wrt_ge_hd:
  "sorted_wrt (\<ge>) (xs :: int list) \<Longrightarrow> x \<in> set xs \<Longrightarrow> x \<le> hd xs"
  by (cases xs) auto

lemma rank_sorted: "sorted_wrt (\<ge>) (map (score t) (rank t data))"
proof -
  let ?scored = "map (\<lambda>c. (c, score t c)) data"
  let ?key = "\<lambda>(c :: company, s :: int). - s"
  let ?top = "take 20 (sort_key ?key ?scored)"
  have "set ?top \<subseteq> set ?scored"
    using set_take_subset [of 20 "sort_key ?key ?scored"] by simp
  then have "\<forall>p \<in> set ?top. score t (fst p) = snd p"
    by auto
  then have eq: "map (score t) (map fst ?top) = map snd ?top"
    by simp
  have "sorted (map ?key (sort_key ?key ?scored))"
    by (rule sorted_sort_key)
  then have "sorted (take 20 (map ?key (sort_key ?key ?scored)))"
    by (rule sorted_wrt_take)
  then have "sorted (map ?key ?top)"
    by (simp add: take_map)
  then have "sorted_wrt (\<lambda>x y. snd y \<le> snd x) ?top"
    by (simp add: sorted_wrt_map case_prod_unfold)
  then have "sorted_wrt (\<ge>) (map snd ?top)"
    by (simp add: sorted_wrt_map)
  then show ?thesis
    unfolding rank_def Let_def eq .
qed

lemma rank_exact_first:
  assumes "c \<in> set (rank t data)" and "toLowerCase (c_ticker c) = t"
  shows "toLowerCase (c_ticker (hd (rank t data))) = t"
proof -
  from assms(2) have "score t c = 10000"
    by (simp add: score_exact_iff)
  with assms(1) have "10000 \<in> set (map (score t) (rank t data))"
    by force
  with rank_sorted [of t data] have "10000 \<le> hd (map (score t) (rank t data))"
    by (rule sorted_wrt_ge_hd)
  moreover from assms(1) have "rank t data \<noteq> []"
    by auto
  ultimately have "10000 \<le> score t (hd (rank t data))"
    by (simp add: hd_map)
  with score_le [of t "hd (rank t data)"] have "score t (hd (rank t data)) = 10000"
    by simp
  then show ?thesis
    by (simp add: score_exact_iff)
qed

lemma length_rank: "length (rank t data) \<le> 20"
  by (simp add: rank_def Let_def)

text \<open>
  C10, as stated, with the query itself compared to the tickers: fails when the query has
  white space at an end, which \<^verbatim>\<open>trim\<close> removes before the comparison. For the query
  \<^verbatim>\<open>"a "\<close> the search term is \<^verbatim>\<open>"a"\<close>. The tickers \<^verbatim>\<open>"AB"\<close> and \<^verbatim>\<open>"A "\<close> both start with it
  and neither equals it, so both score 5000 and keep their order: the second ticker
  equals the query case-insensitively, and the first result does not.
\<close>

theorem search_companies_untrimmed_counterexample:
  "results (search_companies (Some ''a '')
      (Store_data (Some [\<lparr>c_ticker = ''AB'', c_company_name = ''AB Corp'', c_cik = ''0000000001''\<rparr>,
                         \<lparr>c_ticker = ''A '', c_company_name = ''A Corp'', c_cik = ''0000000002''\<rparr>])))
     = [\<lparr>c_ticker = ''AB'', c_company_name = ''AB Corp'', c_cik = ''0000000001''\<rparr>,
        \<lparr>c_ticker = ''A '', c_company_name = ''A Corp'', c_cik = ''0000000002''\<rparr>]
   \<and> toLowerCase ''A '' = toLowerCase ''a ''
   \<and> toLowerCase ''AB'' \<noteq> toLowerCase ''a ''"
  by (simp add: search_companies_def rank_def score_def toLowerCase_def trim_def
      js_whitespace_def startsWith_def js_includes_def)

text \<open>
  C10, amended: for every query the search returns at most 20 results, ordered by
  non-increasing relevance score for the search term (the query in lower case, trimmed),
  and whenever some returned company's ticker in lower case equals that search term, the
  first result is a company whose ticker in lower case equals it.
\<close>

theorem search_companies_ranked:
  "length (results (search_companies query reply)) \<le> 20
   \<and> sorted_wrt (\<ge>) (map (score (trim (toLowerCase q)))
        (results (search_companies (Some q) reply)))
   \<and> (\<forall>c \<in> set (results (search_companies (Some q) reply)).
        toLowerCase (c_ticker c) = trim (toLowerCase q) \<longrightarrow>
        toLowerCase (c_ticker (hd (results (search_companies (Some q) reply))))
          = trim (toLowerCase q))"
proof (intro conjI ballI impI)
  show "length (results (search_companies query reply)) \<le> 20"
    by (simp add: search_companies_def Let_def length_rank
        split: option.splits store_reply.splits)
  show "sorted_wrt (\<ge>) (map (score (trim (toLowerCase q)))
        (results (search_companies (Some q) reply)))"
    by (simp add: search_companies_def Let_def rank_sorted
        split: option.splits store_reply.splits)
next
  fix c
  assume c: "c \<in> set (results (search_companies (Some q) reply))"
    and t: "toLowerCase (c_ticker c) = trim (toLowerCase q)"
  from c obtain data where
    r: "results (search_companies (Some q) reply) = rank (trim (toLowerCase q)) data"
    by (auto simp: search_companies_def Let_def split: if_splits store_reply.splits)
  from c t show "toLowerCase (c_ticker (hd (results (search_companies (Some q) reply))))
      = trim (toLowerCase q)"
    unfolding r by (rule rank_exact_first)
qed

theorem search_companies_ranked_witness:
  "results (search_companies (Some '' Aapl'')
      (Store_data (Some [\<lparr>c_ticker = ''AAPLX'', c_company_name = ''Aaplx Fund'', c_cik = ''0000000003''\<rparr>,
                         \<lparr>c_ticker = ''AAPL'', c_company_name = ''Apple Inc.'', c_cik = ''0000320193''\<rparr>])))
     = [\<lparr>c_ticker = ''AAPL'', c_company_name = ''Apple Inc.'', c_cik = ''0000320193''\<rparr>,
        \<lparr>c_ticker = ''AAPLX'', c_company_name = ''Aaplx Fund'', c_cik = ''0000000003''\<rparr>]
   \<and> toLowerCase (c_ticker (hd (results (search_companies (Some '' Aapl'')
      (Store_data (Some [\<lparr>c_ticker = ''AAPLX'', c_company_name = ''Aaplx Fund'', c_cik = ''0000000003''\<rparr>,
                         \<lparr>c_ticker = ''AAPL'', c_company_name = ''Apple Inc.'', c_cik = ''0000320193''\<rparr>]))))))
     = ''aapl''"
proof -
  let ?x = "\<lparr>c_ticker = ''AAPLX'', c_company_name = ''Aaplx Fund'', c_cik = ''0000000003''\<rparr>"
  let ?a = "\<lparr>c_ticker = ''AAPL'', c_company_name = ''Apple Inc.'', c_cik = ''0000320193''\<rparr>"
  let ?r = "results (search_companies (Some '' Aapl'') (Store_data (Some [?x, ?a])))"
  have t: "trim (toLowerCase '' Aapl'') = ''aapl''"
    by (simp add: trim_def toLowerCase_def js_whitespace_def)
  have r: "?r = [?a, ?x]"
    by (simp add: search_companies_def rank_def score_def toLowerCase_def trim_def
        js_whitespace_def startsWith_def js_includes_def)
  have "?a \<in> set ?r" and "toLowerCase (c_ticker ?a) = trim (toLowerCase '' Aapl'')"
    unfolding r t by (simp_all add: toLowerCase_def)
  with search_companies_ranked [of "Some '' Aapl''" "Store_data (Some [?x, ?a])" "'' Aapl''"]
  have "toLowerCase (c_ticker (hd ?r)) = trim (toLowerCase '' Aapl'')"
    by blast
  with r t show ?thesis
    by simp
qed

subsection \<open>The cache hit\<close>

lemma insert_report_Inr:
  "insert_report i r s = Inr s1 \<Longrightarrow>
     s1 = s\<lparr>reports := reports s @ [(i, r)]\<rparr> \<and> i \<notin> fst ` set (reports s)
     \<and> profiles s (user_id r) \<noteq> None"
  by (auto simp: insert_report_def map_of_eq_None_iff split: if_splits)

lemma insert_report_fresh:
  "i \<notin> fst ` set (reports s) \<Longrightarrow> profiles s (user_id r) \<noteq> None \<Longrightarrow>
     insert_report i r s = Inr (s\<lparr>reports := reports s @ [(i, r)]\<rparr>)"
  by (auto simp: insert_report_def map_of_eq_None_iff)

lemma deduct_token_Inr:
  "deduct_token u s = Inr s' \<Longrightarrow> s' = update_tokens_remaining u (- 1) s"
  by (auto simp: deduct_token_def Let_def split: if_splits)

lemma deduct_token_Inl:
  "deduct_token u s = Inl err \<Longrightarrow>
     \<exists>b. profiles s u = Some (Some b) \<and> b < 1 \<and> err = Insufficient_tokens (Some b)"
  by (auto simp: deduct_token_def Let_def sql_lt_def select_tokens_remaining_def
      split: if_splits option.splits)

lemma deduct_token_reports_update [simp]:
  "deduct_token u (s\<lparr>reports := rs\<rparr>) = map_sum id (\<lambda>x. x\<lparr>reports := rs\<rparr>) (deduct_token u s)"
  by (simp add: deduct_token_def Let_def select_tokens_remaining_def
      update_tokens_remaining_def split: option.splits)

lemma delete_inserted_report:
  "i \<notin> fst ` set (reports s) \<Longrightarrow> delete_report i (s\<lparr>reports := reports s @ [(i, r)]\<rparr>) = s"
proof -
  assume "i \<notin> fst ` set (reports s)"
  then have "filter (\<lambda>(j, r). j \<noteq> i) (reports s) = reports s"
    by (intro filter_True) force
  then show ?thesis
    by (simp add: delete_report_def)
qed

lemma map_of_append_fresh:
  "map_of xs i = Some r \<Longrightarrow> map_of (xs @ [(j, x)]) i = Some r"
  by (simp add: map_add_Some_iff)

lemma existingReports_in_reports:
  "existingReports s t d = (cid, c) # rest \<Longrightarrow>
     (cid, c) \<in> set (reports s) \<and> ticker c = t \<and> d \<le> created_at c"
proof -
  assume a: "existingReports s t d = (cid, c) # rest"
  let ?hits = "filter (\<lambda>(i, r). ticker r = t \<and> d \<le> created_at r) (reports s)"
  from a have "(cid, c) \<in> set (take 1 (sort_key (\<lambda>(i, r). - created_at r) ?hits))"
    by (simp add: existingReports_def)
  then have "(cid, c) \<in> set (sort_key (\<lambda>(i, r). - created_at r) ?hits)"
    by (rule in_set_takeD)
  then show ?thesis
    by auto
qed

lemma dispatch_new_report_insufficient:
  "profiles s u = Some (Some b) \<Longrightarrow> b < 1 \<Longrightarrow>
     dispatch_new_report u e s = Error_response 402 ''insufficient_tokens''"
  by (simp add: dispatch_new_report_def)

lemma generate_report_cached:
  assumes "generate_report tk uid_opt e s = (Cached_response rf rid, s')"
  shows "\<exists>t uid cid c rest orig s1.
           tk = Some t \<and> uid_opt = Some uid \<and> rid = clone_id e \<and> rf = refunded c
         \<and> existingReports s (toUpperCase t) (now e - 2592000) = (cid, c) # rest
         \<and> map_of (reports s) cid = Some orig
         \<and> insert_report rid (cached_clone uid (now e) orig) s = Inr s1
         \<and> reports s' = reports s1"
  using assms
  by (auto simp: generate_report_def Let_def dispatch_new_report_def
      dest!: deduct_token_Inr
      split: option.splits list.splits sum.splits if_splits worker_reply.splits)

text \<open>
  C7: when the handler answers with a cached report, the store's reports are the reports
  it had, in their order and with every field as before, followed by one new row, the
  clone. The clone belongs to the requesting account, copies the narrative payload of a
  report of the ticker that is at most 30 days old, and has \<^verbatim>\<open>ai_cost_usd = 0\<close> and
  \<^verbatim>\<open>total_tokens_consumed = 0\<close>. In particular the original is the row it was.
\<close>

theorem cached_clone_zero_cost_original_unchanged:
  assumes "generate_report tk uid_opt e s = (Cached_response rf rid, s')"
  shows "\<exists>clone cid orig.
           reports s' = reports s @ [(rid, clone)]
         \<and> rid \<notin> fst ` set (reports s)
         \<and> ai_cost_usd clone = 0 \<and> total_tokens_consumed clone = 0
         \<and> uid_opt = Some (user_id clone)
         \<and> map_of (reports s) cid = Some orig \<and> map_of (reports s') cid = Some orig
         \<and> ai_summaries clone = ai_summaries orig \<and> ticker clone = ticker orig
         \<and> (\<forall>i r. map_of (reports s) i = Some r \<longrightarrow> map_of (reports s') i = Some r)"
proof -
  from generate_report_cached [OF assms] obtain t uid cid c rest orig s1 where
    h: "uid_opt = Some uid" "map_of (reports s) cid = Some orig"
       "insert_report rid (cached_clone uid (now e) orig) s = Inr s1"
       "reports s' = reports s1"
    by blast
  let ?clone = "cached_clone uid (now e) orig"
  from insert_report_Inr [OF h(3)] have
    s1: "reports s1 = reports s @ [(rid, ?clone)]" and fresh: "rid \<notin> fst ` set (reports s)"
    by simp_all
  have keep: "\<forall>i r. map_of (reports s) i = Some r \<longrightarrow> map_of (reports s') i = Some r"
    unfolding h(4) s1 by (simp add: map_of_append_fresh)
  have "ai_cost_usd ?clone = 0" "total_tokens_consumed ?clone = 0" "user_id ?clone = uid"
    "ai_summaries ?clone = ai_summaries orig" "ticker ?clone = ticker orig"
    by (simp_all add: cached_clone_def)
  moreover from keep h(2) have "map_of (reports s') cid = Some orig"
    by blast
  moreover from h(4) s1 have "reports s' = reports s @ [(rid, ?clone)]"
    by simp
  ultimately show ?thesis
    using h(1,2) fresh keep
    by (intro exI [of _ ?clone] exI [of _ cid] exI [of _ orig]) simp
qed

lemma generate_report_tst_cached:
  "generate_report (Some ''tst'') (Some 7) tst_request_env (tst_db 1) =
     (Cached_response False 2,
      \<lparr>profiles = [7 \<mapsto> Some 0],
       reports = [(1, tst_report), (2, cached_clone 7 2000 tst_report)],
       token_transactions = [purchase 7 1,
         \<lparr>txn_user_id = 7, txn_report_id = Some 2, transaction_type = ''usage'',
          tokens_amount = - 1, description = ''Cached report for TST''\<rparr>],
       error_logs = []\<rparr>)"
proof -
  have t: "toUpperCase ''tst'' = ''TST''"
    by (simp add: toUpperCase_def)
  have x: "existingReports (tst_db 1) ''TST'' (- 2590000) = [(1, tst_report)]"
    by (simp add: existingReports_def tst_db_def tst_report_def)
  have m: "map_of (reports (tst_db 1)) 1 = Some tst_report"
    by (simp add: tst_db_def)
  show ?thesis
    unfolding generate_report_def
    by (simp add: tst_request_env_def t x m Let_def)
       (simp add: tst_db_def tst_request_env_def insert_report_def cached_clone_def
         tst_report_def deduct_token_def
         select_tokens_remaining_def sql_lt_def update_tokens_remaining_def log_usage_def
         insert_token_transaction_def)
qed

theorem cached_clone_zero_cost_original_unchanged_witness:
  "fst (generate_report (Some ''tst'') (Some 7) tst_request_env (tst_db 1))
     = Cached_response False 2
   \<and> map_option ai_cost_usd (map_of (reports (snd (generate_report (Some ''tst'') (Some 7)
        tst_request_env (tst_db 1)))) 2) = Some 0
   \<and> map_of (reports (snd (generate_report (Some ''tst'') (Some 7)
        tst_request_env (tst_db 1)))) 1 = Some tst_report"
proof -
  let ?g = "generate_report (Some ''tst'') (Some 7) tst_request_env (tst_db 1)"
  have f: "fst ?g = Cached_response False 2"
    by (simp add: generate_report_tst_cached)
  then have g: "?g = (Cached_response False 2, snd ?g)"
    by (metis prod.collapse)
  from cached_clone_zero_cost_original_unchanged [OF g] obtain clone where
    c: "reports (snd ?g) = reports (tst_db 1) @ [(2, clone)]" "ai_cost_usd clone = 0"
    by blast
  have "map_of (reports (snd ?g)) 2 = Some clone"
    unfolding c(1) by (simp add: tst_db_def)
  moreover have "map_of (reports (snd ?g)) 1 = Some tst_report"
    unfolding c(1) by (simp add: tst_db_def)
  ultimately show ?thesis
    using f c(2) by simp
qed

text \<open>
  C8: on a cache hit whose source report is not refunded, when the debit of the requesting
  account fails, the handler answers 402 \<^verbatim>\<open>insufficient_tokens\<close> and leaves the store as it
  was before the request: when the clone's row was inserted, the failed debit is followed
  by the deletion of that row, so no report with the clone's id remains.
\<close>

theorem cached_charge_failure_rolls_back_clone:
  assumes "existingReports s (toUpperCase t) (now e - 2592000) = (cid, c) # rest"
    and "\<not> refunded c" and "t \<noteq> []" and "deduct_token uid s = Inl err"
  shows "generate_report (Some t) (Some uid) e s
           = (Error_response 402 ''insufficient_tokens'', s)
       \<and> (clone_id e \<notin> fst ` set (reports s) \<longrightarrow>
            (\<exists>orig s1. map_of (reports s) cid = Some orig
               \<and> insert_report (clone_id e) (cached_clone uid (now e) orig) s = Inr s1
               \<and> map_of (reports s1) (clone_id e) = Some (cached_clone uid (now e) orig)
               \<and> deduct_token uid s1 = Inl err
               \<and> delete_report (clone_id e) s1 = s
               \<and> map_of (reports s) (clone_id e) = None))"
proof -
  from existingReports_in_reports [OF assms(1)] have "(cid, c) \<in> set (reports s)"
    by simp
  then obtain orig where orig: "map_of (reports s) cid = Some orig"
    by (metis map_of_eq_None_iff not_Some_eq fst_conv image_eqI)
  from deduct_token_Inl [OF assms(4)] obtain b where
    b: "profiles s uid = Some (Some b)" "b < 1"
    by blast
  let ?clone = "cached_clone uid (now e) orig"
  have fail: "deduct_token uid (s\<lparr>reports := rs\<rparr>) = Inl err" for rs
    using assms(4) by simp
  have 1: "generate_report (Some t) (Some uid) e s = (Error_response 402 ''insufficient_tokens'', s)"
  proof (cases "insert_report (clone_id e) ?clone s")
    case (Inl insertError)
    then show ?thesis
      using assms(1,3) orig dispatch_new_report_insufficient [OF b]
      by (simp add: generate_report_def Let_def)
  next
    case (Inr s1)
    from insert_report_Inr [OF Inr] have
      s1: "s1 = s\<lparr>reports := reports s @ [(clone_id e, ?clone)]\<rparr>"
      and fresh: "clone_id e \<notin> fst ` set (reports s)"
      by simp_all
    have "delete_report (clone_id e) s1 = s"
      unfolding s1 by (rule delete_inserted_report [OF fresh])
    moreover have "deduct_token uid s1 = Inl err"
      unfolding s1 by (rule fail)
    ultimately show ?thesis
      using assms(1,2,3) orig Inr
      by (simp add: generate_report_def Let_def)
  qed
  have 2: "\<exists>orig s1. map_of (reports s) cid = Some orig
               \<and> insert_report (clone_id e) (cached_clone uid (now e) orig) s = Inr s1
               \<and> map_of (reports s1) (clone_id e) = Some (cached_clone uid (now e) orig)
               \<and> deduct_token uid s1 = Inl err
               \<and> delete_report (clone_id e) s1 = s
               \<and> map_of (reports s) (clone_id e) = None"
    if fresh: "clone_id e \<notin> fst ` set (reports s)"
  proof -
    let ?s1 = "s\<lparr>reports := reports s @ [(clone_id e, ?clone)]\<rparr>"
    have "profiles s (user_id ?clone) \<noteq> None"
      using b(1) by (simp add: cached_clone_def)
    with fresh have "insert_report (clone_id e) ?clone s = Inr ?s1"
      by (rule insert_report_fresh)
    moreover have "map_of (reports s) (clone_id e) = None"
      using fresh by (simp add: map_of_eq_None_iff)
    moreover from this have "map_of (reports ?s1) (clone_id e) = Some ?clone"
      by (simp add: map_add_def)
    moreover have "deduct_token uid ?s1 = Inl err"
      by (rule fail)
    moreover have "delete_report (clone_id e) ?s1 = s"
      by (rule delete_inserted_report [OF fresh])
    ultimately show ?thesis
      using orig by blast
  qed
  from 1 2 show ?thesis
    by blast
qed

theorem cached_charge_failure_rolls_back_clone_witness:
  "existingReports (tst_db 0) (toUpperCase ''tst'') (now tst_request_env - 2592000)
     = [(1, tst_report)]
   \<and> \<not> refunded tst_report
   \<and> deduct_token 7 (tst_db 0) = Inl (Insufficient_tokens (Some 0))
   \<and> generate_report (Some ''tst'') (Some 7) tst_request_env (tst_db 0)
       = (Error_response 402 ''insufficient_tokens'', tst_db 0)
   \<and> map_of (reports (tst_db 0)) (clone_id tst_request_env) = None"
proof -
  have h1: "existingReports (tst_db 0) (toUpperCase ''tst'') (now tst_request_env - 2592000)
     = (1, tst_report) # []"
    by (simp add: existingReports_def tst_db_def tst_report_def toUpperCase_def
        tst_request_env_def)
  have h2: "\<not> refunded tst_report"
    by (simp add: tst_report_def)
  have h3: "''tst'' \<noteq> []"
    by simp
  have h4: "deduct_token 7 (tst_db 0) = Inl (Insufficient_tokens (Some 0))"
    by (simp add: deduct_token_def tst_db_def select_tokens_remaining_def sql_lt_def)
  have h6: "map_of (reports (tst_db 0)) (clone_id tst_request_env) = None"
    by (simp add: tst_request_env_def tst_db_def)
  from cached_charge_failure_rolls_back_clone [OF h1 h2 h3 h4] h1 h2 h4 h6
  show ?thesis
    by simp
qed

subsection \<open>The fresh run\<close>

lemma split_words_text_eq: "split (words_text n) = replicate n ''word''"
  by (simp add: split_def split_from_words_text)

lemma no_digit_word: "\<not> (\<exists>c \<in> set ''word''. isdigit c)"
  by (simp add: isdigit_def)

lemma check_numbers_words_text:
  "check_numbers_sections ((n, words_text k) # rest) iss = check_numbers_sections rest iss"
  using no_digit_word by (simp add: split_words_text_eq filter_replicate Let_def)

lemma check_required_full:
  "check_required [full_filing d1 a1, full_filing d2 a2] [] = []"
  by (simp add: full_filing_def required_sections_def)

lemma check_length_full:
  "check_length [full_filing d1 a1, full_filing d2 a2] [] = []"
  by (simp add: full_filing_def min_word_counts_def split_words_text)

lemma check_numbers_full:
  "check_numbers [full_filing d1 a1, full_filing d2 a2] [] = []"
  by (simp add: full_filing_def check_numbers_words_text del: check_numbers_sections.simps(2))

lemma validate_full_filings:
  "validate_extraction [full_filing d1 a1, full_filing d2 a2] () tst_ai_results
     = \<lparr>is_valid = True, issues = []\<rparr>"
  unfolding validate_extraction_def check_required_full check_length_full check_numbers_full
  by (simp add: check_summaries_def tst_ai_results_def)

lemma check_required_without_item7:
  "check_required [filing_without_item7 d1 a1, full_filing d2 a2] []
     = [''Missing sections: Item 7'']"
  by (simp add: full_filing_def filing_without_item7_def required_sections_def)

lemma check_length_without_item7:
  "check_length [filing_without_item7 d1 a1, full_filing d2 a2] iss = iss"
  by (simp add: full_filing_def filing_without_item7_def min_word_counts_def split_words_text)

lemma check_numbers_without_item7:
  "check_numbers [filing_without_item7 d1 a1, full_filing d2 a2] iss = iss"
  by (simp add: full_filing_def filing_without_item7_def check_numbers_words_text
      del: check_numbers_sections.simps(2))

lemma validate_filing_without_item7:
  "validate_extraction [filing_without_item7 d1 a1, full_filing d2 a2] () tst_ai_results
     = \<lparr>is_valid = False, issues = [''Missing sections: Item 7'']\<rparr>"
  unfolding validate_extraction_def check_required_without_item7 check_length_without_item7
    check_numbers_without_item7
  by (simp add: check_summaries_def tst_ai_results_def)

lemma full_filing_fields:
  "filing_date (full_filing d a) = d" "accession (full_filing d a) = a"
  "filing_company_name (full_filing d a) = ''Test Co''"
  "map fst (sections (full_filing d a)) = [''Item 1'', ''Item 1A'', ''Item 7'', ''Item 8'']"
  by (simp_all add: full_filing_def)

lemma filing_without_item7_fields:
  "filing_date (filing_without_item7 d a) = d" "accession (filing_without_item7 d a) = a"
  "filing_company_name (filing_without_item7 d a) = ''Test Co''"
  "map fst (sections (filing_without_item7 d a)) = [''Item 1'', ''Item 1A'', ''Item 8'']"
  by (simp_all add: filing_without_item7_def)

lemma tst_ai_results_fields:
  "summaries tst_ai_results = [(''Item 1'', ''Summary'')]"
  "total_cost_usd tst_ai_results = 2040" "total_tokens tst_ai_results = 61600"
  by (simp_all add: tst_ai_results_def)

text \<open>
  C5 on the code. Account 7 has balance 3 and TST has no report. The handler accepts the
  request and leaves the store as it is; the worker's run passes the Quality Gate and
  writes one report with \<^verbatim>\<open>extraction_success = true\<close> and \<^verbatim>\<open>refunded = false\<close>. No usage
  transaction is written and the balance is still 3: neither the handler's fresh path nor
  \<^verbatim>\<open>process_job\<close> calls \<^verbatim>\<open>deduct_token\<close>.
\<close>

theorem fresh_run_quality_pass_is_not_charged:
  "generate_report (Some ''TST'') (Some 7) tst_request_env (fresh_db 3)
     = (Accepted_response 100, fresh_db 3)
   \<and> map (\<lambda>(i, r). (i, extraction_success r, refunded r))
       (reports (store (process_job 100 7 ''TST''
          (tst_worker_env [full_filing ''2024-02-01'' ''0000000000-24-000001'',
                           full_filing ''2023-02-01'' ''0000000000-23-000001''])
          \<lparr>store = fresh_db 3, jobs = Map.empty, posted = [], uncaught = None\<rparr>)))
       = [(1, True, False)]
   \<and> token_transactions (store (process_job 100 7 ''TST''
          (tst_worker_env [full_filing ''2024-02-01'' ''0000000000-24-000001'',
                           full_filing ''2023-02-01'' ''0000000000-23-000001''])
          \<lparr>store = fresh_db 3, jobs = Map.empty, posted = [], uncaught = None\<rparr>))
       = [purchase 7 3]
   \<and> balance (store (process_job 100 7 ''TST''
          (tst_worker_env [full_filing ''2024-02-01'' ''0000000000-24-000001'',
                           full_filing ''2023-02-01'' ''0000000000-23-000001''])
          \<lparr>store = fresh_db 3, jobs = Map.empty, posted = [], uncaught = None\<rparr>)) 7
       = Some 3
   \<and> map cb_status (posted (process_job 100 7 ''TST''
          (tst_worker_env [full_filing ''2024-02-01'' ''0000000000-24-000001'',
                           full_filing ''2023-02-01'' ''0000000000-23-000001''])
          \<lparr>store = fresh_db 3, jobs = Map.empty, posted = [], uncaught = None\<rparr>))
       = [''completed'']"
proof -
  have u: "toUpperCase ''TST'' = ''TST''"
    by (simp add: toUpperCase_def)
  have g: "generate_report (Some ''TST'') (Some 7) tst_request_env (fresh_db 3)
     = (Accepted_response 100, fresh_db 3)"
    by (simp add: generate_report_def u existingReports_def Let_def dispatch_new_report_def
        fresh_db_def tst_request_env_def)
  let ?w = "process_job 100 7 ''TST''
          (tst_worker_env [full_filing ''2024-02-01'' ''0000000000-24-000001'',
                           full_filing ''2023-02-01'' ''0000000000-23-000001''])
          \<lparr>store = fresh_db 3, jobs = Map.empty, posted = [], uncaught = None\<rparr>"
  have s: "store ?w = (fresh_db 3)\<lparr>reports :=
      [(1, \<lparr>user_id = 7, ticker = ''TST'', company_name = ''Test Co'',
            newer_filing_date = ''2024-02-01'', older_filing_date = ''2023-02-01'',
            newer_accession = ''0000000000-24-000001'',
            older_accession = ''0000000000-23-000001'',
            extraction_success = True,
            sections_extracted = [''Item 1'', ''Item 1A'', ''Item 7'', ''Item 8''],
            extraction_issues = [], ai_summaries = [(''Item 1'', ''Summary'')],
            tokens_used = 1, refunded = False, ai_cost_usd = 2040,
            total_tokens_consumed = 61600, report_url = None, created_at = 2000,
            generation_time_seconds = 0\<rparr>)]\<rparr>"
    and p: "map cb_status (posted ?w) = [''completed'']"
    by (simp_all add: process_job_def tst_worker_env_def validate_full_filings Let_def
        set_progress_def finish_job_def create_report_def insert_report_def fresh_db_def
        full_filing_fields tst_ai_results_fields)
  show ?thesis
    unfolding s
    using g p by (simp add: fresh_db_def balance_def select_tokens_remaining_def)
qed

text \<open>
  C6 on the code. The same account and request; the newer filing has no Item 7, so the
  Quality Gate fails with the one issue \<^verbatim>\<open>Missing sections: Item 7\<close>. The worker writes the
  report with \<^verbatim>\<open>extraction_success = false\<close>, \<^verbatim>\<open>create_token_refund\<close> sets \<^verbatim>\<open>refunded\<close> and
  writes the refund transaction of +1, and the balance is 4: one more than before the
  request, since nothing was debited.
\<close>

theorem fresh_run_quality_fail_refund_raises_balance:
  "generate_report (Some ''TST'') (Some 7) tst_request_env (fresh_db 3)
     = (Accepted_response 100, fresh_db 3)
   \<and> map (\<lambda>(i, r). (i, extraction_success r, refunded r, extraction_issues r))
       (reports (store (process_job 100 7 ''TST''
          (tst_worker_env [filing_without_item7 ''2024-02-01'' ''0000000000-24-000001'',
                           full_filing ''2023-02-01'' ''0000000000-23-000001''])
          \<lparr>store = fresh_db 3, jobs = Map.empty, posted = [], uncaught = None\<rparr>)))
       = [(1, False, True, [''Missing sections: Item 7''])]
   \<and> map (\<lambda>t. (transaction_type t, tokens_amount t))
       (token_transactions (store (process_job 100 7 ''TST''
          (tst_worker_env [filing_without_item7 ''2024-02-01'' ''0000000000-24-000001'',
                           full_filing ''2023-02-01'' ''0000000000-23-000001''])
          \<lparr>store = fresh_db 3, jobs = Map.empty, posted = [], uncaught = None\<rparr>)))
       = [(''purchase'', 3), (''refund'', 1)]
   \<and> balance (fresh_db 3) 7 = Some 3
   \<and> balance (store (process_job 100 7 ''TST''
          (tst_worker_env [filing_without_item7 ''2024-02-01'' ''0000000000-24-000001'',
                           full_filing ''2023-02-01'' ''0000000000-23-000001''])
          \<lparr>store = fresh_db 3, jobs = Map.empty, posted = [], uncaught = None\<rparr>)) 7
       = Some 4"
proof -
  have u: "toUpperCase ''TST'' = ''TST''"
    by (simp add: toUpperCase_def)
  have g: "generate_report (Some ''TST'') (Some 7) tst_request_env (fresh_db 3)
     = (Accepted_response 100, fresh_db 3)"
    by (simp add: generate_report_def u existingReports_def Let_def dispatch_new_report_def
        fresh_db_def tst_request_env_def)
  let ?w = "process_job 100 7 ''TST''
          (tst_worker_env [filing_without_item7 ''2024-02-01'' ''0000000000-24-000001'',
                           full_filing ''2023-02-01'' ''0000000000-23-000001''])
          \<lparr>store = fresh_db 3, jobs = Map.empty, posted = [], uncaught = None\<rparr>"
  have s: "store ?w =
     \<lparr>profiles = [7 \<mapsto> Some 4],
      reports =
      [(1, \<lparr>user_id = 7, ticker = ''TST'', company_name = ''Test Co'',
            newer_filing_date = ''2024-02-01'', older_filing_date = ''2023-02-01'',
            newer_accession = ''0000000000-24-000001'',
            older_accession = ''0000000000-23-000001'',
            extraction_success = False,
            sections_extracted = [''Item 1'', ''Item 1A'', ''Item 8''],
            extraction_issues = [''Missing sections: Item 7''],
            ai_summaries = [(''Item 1'', ''Summary'')],
            tokens_used = 1, refunded = True, ai_cost_usd = 2040,
            total_tokens_consumed = 61600, report_url = None, created_at = 2000,
            generation_time_seconds = 0\<rparr>)],
      token_transactions = [purchase 7 3,
        \<lparr>txn_user_id = 7, txn_report_id = Some 1, transaction_type = ''refund'',
         tokens_amount = 1,
         description = ''Quality refund: Quality issues: Missing sections: Item 7''\<rparr>],
      error_logs = []\<rparr>"
    by (simp add: process_job_def tst_worker_env_def validate_filing_without_item7 Let_def
        set_progress_def finish_job_def create_report_def insert_report_def fresh_db_def
        full_filing_fields filing_without_item7_fields tst_ai_results_fields
        create_token_refund_def
        update_refunded_def insert_token_transaction_def increment_tokens_def
        integer_range_def select_tokens_remaining_def update_tokens_remaining_def)
  show ?thesis
    unfolding s
    using g by (simp add: fresh_db_def balance_def select_tokens_remaining_def purchase_def)
qed

subsection \<open>Two concurrent debits\<close>

text \<open>A statement of either call, on a state given by its fields.\<close>

lemma step_simps:
  "step False \<lparr>row = r, holder = h, first_call = c1, second_call = c2\<rparr> =
     (case c1 of
        Idle \<Rightarrow> (if h = None then \<lparr>row = r, holder = Some False, first_call = Locked r, second_call = c2\<rparr>
                 else \<lparr>row = r, holder = h, first_call = c1, second_call = c2\<rparr>)
      | Locked b \<Rightarrow> (if b < 1 then \<lparr>row = r, holder = None, first_call = Aborted b, second_call = c2\<rparr>
                     else \<lparr>row = r - 1, holder = h, first_call = Updated, second_call = c2\<rparr>)
      | Updated \<Rightarrow> \<lparr>row = r, holder = None, first_call = Committed, second_call = c2\<rparr>
      | Committed \<Rightarrow> \<lparr>row = r, holder = h, first_call = c1, second_call = c2\<rparr>
      | Aborted b \<Rightarrow> \<lparr>row = r, holder = h, first_call = c1, second_call = c2\<rparr>)"
  "step True \<lparr>row = r, holder = h, first_call = c1, second_call = c2\<rparr> =
     (case c2 of
        Idle \<Rightarrow> (if h = None then \<lparr>row = r, holder = Some True, first_call = c1, second_call = Locked r\<rparr>
                 else \<lparr>row = r, holder = h, first_call = c1, second_call = c2\<rparr>)
      | Locked b \<Rightarrow> (if b < 1 then \<lparr>row = r, holder = None, first_call = c1, second_call = Aborted b\<rparr>
                     else \<lparr>row = r - 1, holder = h, first_call = c1, second_call = Updated\<rparr>)
      | Updated \<Rightarrow> \<lparr>row = r, holder = None, first_call = c1, second_call = Committed\<rparr>
      | Committed \<Rightarrow> \<lparr>row = r, holder = h, first_call = c1, second_call = c2\<rparr>
      | Aborted b \<Rightarrow> \<lparr>row = r, holder = h, first_call = c1, second_call = c2\<rparr>)"
  by (simp_all add: step_def call_of_def set_call_def split: call.splits)

lemma step_closed: "\<forall>s \<in> set reachable_states. step p s \<in> set reachable_states"
  by (cases p) (simp_all add: reachable_states_def step_simps)

lemma run_reachable: "s \<in> set reachable_states \<Longrightarrow> run schedule s \<in> set reachable_states"
  unfolding run_def
  by (induction schedule arbitrary: s) (simp_all add: step_closed)

lemma two_debits_reachable: "two_debits 1 \<in> set reachable_states"
  by (simp add: two_debits_def reachable_states_def)

lemma reachable_safe:
  "\<forall>s \<in> set reachable_states.
     \<not> (first_call s = Committed \<and> second_call s = Committed) \<and> 0 \<le> row s
     \<and> (ended (first_call s) \<and> ended (second_call s) \<longrightarrow>
         row s = 0 \<and> (first_call s = Committed \<and> second_call s = Aborted 0
                      \<or> first_call s = Aborted 0 \<and> second_call s = Committed))"
  by (simp add: reachable_states_def ended_def)

lemma reachable_ends:
  "\<forall>s \<in> set reachable_states.
     ended (first_call (run fair_rest s)) \<and> ended (second_call (run fair_rest s))"
  by (simp add: reachable_states_def run_def fair_rest_def step_simps ended_def)

text \<open>
  One call alone, run to its end, does what the function \<^verbatim>\<open>deduct_token\<close> of the ledger
  does on an account with that balance.
\<close>

lemma single_call_is_deduct_token:
  assumes "balance s u = Some b"
  shows "case deduct_token u s of
           Inl e \<Rightarrow> first_call (run [False, False, False] (two_debits b)) = Aborted b
                    \<and> row (run [False, False, False] (two_debits b)) = b
         | Inr s' \<Rightarrow> first_call (run [False, False, False] (two_debits b)) = Committed
                    \<and> balance s' u = Some (row (run [False, False, False] (two_debits b)))"
proof (cases "b < 1")
  case True
  with assms show ?thesis
    by (simp add: deduct_token_fails run_def two_debits_def step_simps)
next
  case False
  with assms balance_update_tokens_remaining [OF assms, of "- 1"] show ?thesis
    by (simp add: deduct_token_succeeds run_def two_debits_def step_simps)
qed

text \<open>
  C2: two calls of \<^verbatim>\<open>deduct_token\<close> on an account with balance exactly 1, their statements
  interleaved by any schedule. At no point have both committed, and the balance is never
  negative. Once both calls have ended, one has committed and the other has raised the
  insufficient-tokens exception (having read the balance 0), and the balance is 0. And
  both calls do end: after any schedule, letting each call run leads to such a state.
\<close>

theorem concurrent_debits_exactly_one_success:
  "\<not> (first_call (run schedule (two_debits 1)) = Committed
       \<and> second_call (run schedule (two_debits 1)) = Committed)
   \<and> 0 \<le> row (run schedule (two_debits 1))
   \<and> (ended (first_call (run schedule (two_debits 1)))
       \<and> ended (second_call (run schedule (two_debits 1))) \<longrightarrow>
         row (run schedule (two_debits 1)) = 0
       \<and> (first_call (run schedule (two_debits 1)) = Committed
            \<and> second_call (run schedule (two_debits 1)) = Aborted 0
          \<or> first_call (run schedule (two_debits 1)) = Aborted 0
            \<and> second_call (run schedule (two_debits 1)) = Committed))
   \<and> ended (first_call (run (schedule @ fair_rest) (two_debits 1)))
   \<and> ended (second_call (run (schedule @ fair_rest) (two_debits 1)))"
proof -
  have r: "run schedule (two_debits 1) \<in> set reachable_states"
    by (rule run_reachable [OF two_debits_reachable])
  have "run (schedule @ fair_rest) (two_debits 1) = run fair_rest (run schedule (two_debits 1))"
    by (simp add: run_def)
  with reachable_safe [rule_format, OF r] reachable_ends [rule_format, OF r] show ?thesis
    by simp
qed

theorem concurrent_debits_exactly_one_success_witness:
  "run [False, True, False, True, False, True, True] (two_debits 1)
     = \<lparr>row = 0, holder = None, first_call = Committed, second_call = Aborted 0\<rparr>
   \<and> ended (first_call (run [False, True, False, True, False, True, True] (two_debits 1)))
   \<and> ended (second_call (run [False, True, False, True, False, True, True] (two_debits 1)))
   \<and> row (run [False, True, False, True, False, True, True] (two_debits 1)) = 0"
proof -
  let ?s = "run [False, True, False, True, False, True, True] (two_debits 1)"
  have s: "?s = \<lparr>row = 0, holder = None, first_call = Committed, second_call = Aborted 0\<rparr>"
    by (simp add: run_def two_debits_def step_simps)
  then have e: "ended (first_call ?s) \<and> ended (second_call ?s)"
    by (simp add: ended_def)
  with concurrent_debits_exactly_one_success [of "[False, True, False, True, False, True, True]"]
  have "row ?s = 0"
    by blast
  with s e show ?thesis
    by simp
qed

end
